theory Spec2Isabelle
  imports Complex_Main
begin

section \<open>SPARKX: particle records, reaction-plane flow and the JETSCAPE loader\<close>

text \<open>
  A shallow embedding of \<^verbatim>\<open>sparkx/Particle.py\<close>,
  \<^verbatim>\<open>sparkx/flow/ReactionPlaneFlow.py\<close> and
  \<^verbatim>\<open>sparkx/Loader/JetscapeLoader.py\<close>.

  Conventions of the embedding:
  \<^item> a Python exception is a value of the type \<open>error\<close>; a function that may raise
    returns \<open>error + 'a\<close>, with \<open>Inl\<close> for the exception;
  \<^item> a Python \<^verbatim>\<open>float\<close> (and a numpy \<^verbatim>\<open>float64\<close>) is a \<open>real\<close>: rounding, overflow and
    signed zeros are outside the model. The non-finite results of numpy's division by
    zero are kept, in the types \<open>xreal\<close> and \<open>npcomplex\<close>, because the flow code
    divides by a power of the transverse momentum;
  \<^item> an attribute that may hold \<^verbatim>\<open>None\<close> is an \<open>option\<close>.
\<close>

subsection \<open>Exceptions\<close>

datatype error =
    ValueError string
  | TypeError string
  | IndexError string
  | ZeroDivisionError string
  | OSError string

subsection \<open>Floating-point values with the non-finite results of division\<close>

text \<open>
  \<open>xreal\<close> is a real number, an infinity or NaN, with the IEEE rules for the sum, the
  product and the quotient by a non-negative zero.
\<close>

datatype xreal = Fin real | PInf | MInf | NaN

fun xneg :: "xreal \<Rightarrow> xreal" where
  "xneg (Fin a) = Fin (- a)"
| "xneg PInf = MInf"
| "xneg MInf = PInf"
| "xneg NaN = NaN"

fun xadd :: "xreal \<Rightarrow> xreal \<Rightarrow> xreal" where
  "xadd NaN _ = NaN"
| "xadd _ NaN = NaN"
| "xadd (Fin a) (Fin b) = Fin (a + b)"
| "xadd PInf MInf = NaN"
| "xadd MInf PInf = NaN"
| "xadd PInf _ = PInf"
| "xadd _ PInf = PInf"
| "xadd MInf _ = MInf"
| "xadd _ MInf = MInf"

fun xsign :: "xreal \<Rightarrow> int" where
  "xsign (Fin a) = (if a > 0 then 1 else if a < 0 then - 1 else 0)"
| "xsign PInf = 1"
| "xsign MInf = - 1"
| "xsign NaN = 0"

fun xmul :: "xreal \<Rightarrow> xreal \<Rightarrow> xreal" where
  "xmul NaN _ = NaN"
| "xmul _ NaN = NaN"
| "xmul (Fin a) (Fin b) = Fin (a * b)"
| "xmul a b =
     (if xsign a * xsign b > 0 then PInf
      else if xsign a * xsign b < 0 then MInf
      else NaN)"

text \<open>The quotient by a zero of positive sign: \<open>a / 0.0\<close>.\<close>

fun xdiv_zero :: "xreal \<Rightarrow> xreal" where
  "xdiv_zero (Fin a) = (if a > 0 then PInf else if a < 0 then MInf else NaN)"
| "xdiv_zero PInf = PInf"
| "xdiv_zero MInf = MInf"
| "xdiv_zero NaN = NaN"

text \<open>
  A numpy \<^verbatim>\<open>complex128\<close>: real and imaginary part. The operations are numpy's, with the
  \<^verbatim>\<open>float64\<close> operand promoted to a complex number of imaginary part zero:
  the product \<open>(w + 0j) * (a + bj) = (w*a - 0*b) + (w*b + 0*a)j\<close>, and the quotient by
  \<open>r + 0j\<close>, which numpy computes as \<open>(a / |r|, b / |r|)\<close> when \<open>r\<close> is zero and as
  \<open>((a + b*rat) * scl, (b - a*rat) * scl)\<close> with \<open>rat = 0 / r\<close> and \<open>scl = 1 / r\<close>
  otherwise.
\<close>

datatype npcomplex = C128 xreal xreal

definition c_fin :: "complex \<Rightarrow> npcomplex" where
  "c_fin z = C128 (Fin (Re z)) (Fin (Im z))"

definition c_nan :: npcomplex where
  "c_nan = C128 NaN NaN"

fun c_isnan :: "npcomplex \<Rightarrow> bool" where
  "c_isnan (C128 a b) = (a = NaN \<or> b = NaN)"

fun c_add :: "npcomplex \<Rightarrow> npcomplex \<Rightarrow> npcomplex" where
  "c_add (C128 a b) (C128 c d) = C128 (xadd a c) (xadd b d)"

fun c_scale :: "real \<Rightarrow> npcomplex \<Rightarrow> npcomplex" where
  "c_scale w (C128 a b) =
     C128 (xadd (xmul (Fin w) a) (xneg (xmul (Fin 0) b)))
          (xadd (xmul (Fin w) b) (xmul (Fin 0) a))"

fun c_div_real :: "npcomplex \<Rightarrow> real \<Rightarrow> npcomplex" where
  "c_div_real (C128 a b) r =
     (if r = 0 then C128 (xdiv_zero a) (xdiv_zero b)
      else C128 (xmul (xadd a (xmul b (Fin (0 / r)))) (Fin (1 / r)))
                (xmul (xadd b (xneg (xmul a (Fin (0 / r))))) (Fin (1 / r))))"

text \<open>
  A complex value of the flow code is either a Python \<^verbatim>\<open>complex\<close> (the literal
  \<^verbatim>\<open>0. + 0.j\<close> and sums of such) or a numpy \<^verbatim>\<open>complex128\<close> (everything that
  \<^verbatim>\<open>np.exp\<close> has touched). The two differ at a division by zero: Python raises
  \<^verbatim>\<open>ZeroDivisionError\<close>, numpy returns a non-finite value.
\<close>

datatype pycomplex = PyC complex | NpC npcomplex

fun to_np :: "pycomplex \<Rightarrow> npcomplex" where
  "to_np (PyC z) = c_fin z"
| "to_np (NpC c) = c"

fun py_add :: "pycomplex \<Rightarrow> pycomplex \<Rightarrow> pycomplex" where
  "py_add (PyC a) (PyC b) = PyC (a + b)"
| "py_add a b = NpC (c_add (to_np a) (to_np b))"

fun py_div :: "pycomplex \<Rightarrow> real \<Rightarrow> error + pycomplex" where
  "py_div (PyC a) r =
     (if r = 0 then Inl (ZeroDivisionError ''complex division by zero'')
      else Inr (PyC (a / complex_of_real r)))"
| "py_div (NpC a) r = Inr (NpC (c_div_real a r))"

subsection \<open>The particle record (Particle.py)\<close>

text \<open>
  The attributes of \<^verbatim>\<open>Particle.__init__\<close>, all \<^verbatim>\<open>None\<close> at first. The source names end
  in an underscore (\<^verbatim>\<open>px_\<close>); here they end in \<open>_attr\<close>.
\<close>

record particle =
  t_attr :: "real option"
  x_attr :: "real option"
  y_attr :: "real option"
  z_attr :: "real option"
  mass_attr :: "real option"
  E_attr :: "real option"
  px_attr :: "real option"
  py_attr :: "real option"
  pz_attr :: "real option"
  pdg_attr :: "real option"
  pdg_valid_attr :: "bool option"
  ID_attr :: "real option"
  charge_attr :: "real option"
  ncoll_attr :: "real option"
  form_time_attr :: "real option"
  xsecfac_attr :: "real option"
  proc_id_origin_attr :: "real option"
  proc_type_origin_attr :: "real option"
  t_last_coll_attr :: "real option"
  pdg_mother1_attr :: "real option"
  pdg_mother2_attr :: "real option"
  baryon_number_attr :: "real option"
  strangeness_attr :: "real option"
  weight_attr :: "real option"
  status_attr :: "real option"

definition empty_particle :: particle where
  "empty_particle = \<lparr>
     t_attr = None, x_attr = None, y_attr = None, z_attr = None,
     mass_attr = None, E_attr = None, px_attr = None, py_attr = None,
     pz_attr = None, pdg_attr = None, pdg_valid_attr = None, ID_attr = None,
     charge_attr = None, ncoll_attr = None, form_time_attr = None,
     xsecfac_attr = None, proc_id_origin_attr = None,
     proc_type_origin_attr = None, t_last_coll_attr = None,
     pdg_mother1_attr = None, pdg_mother2_attr = None,
     baryon_number_attr = None, strangeness_attr = None,
     weight_attr = None, status_attr = None \<rparr>"

text \<open>
  The property getters: \<^verbatim>\<open>if self.px_ == None: raise ValueError("px not set")\<close>,
  else the attribute.
\<close>

definition getter :: "string \<Rightarrow> 'a option \<Rightarrow> error + 'a" where
  "getter name v =
     (case v of None \<Rightarrow> Inl (ValueError (name @ '' not set'')) | Some a \<Rightarrow> Inr a)"

definition E :: "particle \<Rightarrow> error + real" where
  "E p = getter ''E'' (E_attr p)"

definition px :: "particle \<Rightarrow> error + real" where
  "px p = getter ''px'' (px_attr p)"

definition py :: "particle \<Rightarrow> error + real" where
  "py p = getter ''py'' (py_attr p)"

definition pz :: "particle \<Rightarrow> error + real" where
  "pz p = getter ''pz'' (pz_attr p)"

definition pdg :: "particle \<Rightarrow> error + real" where
  "pdg p = getter ''pdg'' (pdg_attr p)"

definition charge :: "particle \<Rightarrow> error + real" where
  "charge p = getter ''charge'' (charge_attr p)"

definition weight :: "particle \<Rightarrow> error + real" where
  "weight p = getter ''weight'' (weight_attr p)"

text \<open>Sequencing of calls that may raise.\<close>

definition bind_e :: "error + 'a \<Rightarrow> ('a \<Rightarrow> error + 'b) \<Rightarrow> error + 'b" where
  "bind_e m f = (case m of Inl e \<Rightarrow> Inl e | Inr a \<Rightarrow> f a)"

text \<open>
  \<^verbatim>\<open>pt_abs\<close>: \<^verbatim>\<open>np.sqrt(self.px**2. + self.py**2.)\<close>.
\<close>

definition pt_abs :: "particle \<Rightarrow> error + real" where
  "pt_abs p = bind_e (px p) (\<lambda>a. bind_e (py p) (\<lambda>b. Inr (sqrt (a\<^sup>2 + b\<^sup>2))))"

text \<open>\<^verbatim>\<open>math.atan2(y, x)\<close>, the angle of the point \<open>(x, y)\<close> in \<open>(-\<pi>, \<pi>]\<close>.\<close>

definition atan2 :: "real \<Rightarrow> real \<Rightarrow> real" where
  "atan2 y x =
     (if x > 0 then arctan (y / x)
      else if x < 0 \<and> y \<ge> 0 then arctan (y / x) + pi
      else if x < 0 \<and> y < 0 then arctan (y / x) - pi
      else if y > 0 then pi / 2
      else if y < 0 then - (pi / 2)
      else 0)"

text \<open>
  \<^verbatim>\<open>phi\<close>: zero when both momentum components are below \<open>1e-6\<close> in magnitude, else
  \<^verbatim>\<open>math.atan2(self.py, self.px)\<close>. Python's \<^verbatim>\<open>and\<close> reads \<^verbatim>\<open>self.py\<close> only when the
  first comparison holds; the \<^verbatim>\<open>else\<close> branch reads \<^verbatim>\<open>self.py\<close> before \<^verbatim>\<open>self.px\<close>.
\<close>

definition phi :: "particle \<Rightarrow> error + real" where
  "phi p =
     bind_e (px p) (\<lambda>a.
       if \<bar>a\<bar> < 1 / 10 ^ 6 then
         bind_e (py p) (\<lambda>b.
           if \<bar>b\<bar> < 1 / 10 ^ 6 then Inr 0
           else bind_e (py p) (\<lambda>b'. bind_e (px p) (\<lambda>a'. Inr (atan2 b' a'))))
       else bind_e (py p) (\<lambda>b'. bind_e (px p) (\<lambda>a'. Inr (atan2 b' a'))))"

subsection \<open>ReactionPlaneFlow\<close>

text \<open>
  The constructor keeps the harmonic \<open>n\<close> when it is an \<^verbatim>\<open>int\<close> and positive.
  The argument is an integer here, so the \<^verbatim>\<open>TypeError\<close> of a non-integer is excluded by
  the type.
\<close>

definition ReactionPlaneFlow :: "int \<Rightarrow> error + nat" where
  "ReactionPlaneFlow n =
     (if n \<le> 0 then Inl (ValueError ''n-th harmonic with value n<=0 can not be computed'')
      else Inr (nat n))"

text \<open>
  The weight of a particle in the flow sums:
  \<^verbatim>\<open>weight = 1. if particle.weight is None else particle.weight\<close>.
  The property \<^verbatim>\<open>weight\<close> is read twice. It raises when the attribute is \<^verbatim>\<open>None\<close> and
  returns a float otherwise, so the test \<^verbatim>\<open>is None\<close> is false whenever it is reached.
\<close>

definition flow_weight :: "particle \<Rightarrow> error + real" where
  "flow_weight p =
     bind_e (weight p) (\<lambda>w. if False then Inr 1 else weight p)"

text \<open>
  The term of one particle:
  \<^verbatim>\<open>weight*(pt**self.n_ * np.exp(1j*self.n_*phi) / pt**self.n_)\<close>, with \<^verbatim>\<open>pt\<close> a numpy
  float (the result of \<^verbatim>\<open>np.sqrt\<close>) and the exponential a numpy complex number.
\<close>

definition flow_term :: "nat \<Rightarrow> real \<Rightarrow> real \<Rightarrow> real \<Rightarrow> npcomplex" where
  "flow_term n w pt ph =
     c_scale w
       (c_div_real
          (c_scale (pt ^ n) (c_fin (exp (\<i> * complex_of_real (real n * ph)))))
          (pt ^ n))"

text \<open>
  The loop over the particles of one event (lines 86--91 of \<^verbatim>\<open>integrated_flow\<close>, and the
  same statements at lines 152--157 of \<^verbatim>\<open>__differential_flow_calculation\<close>). The state is
  the pair \<^verbatim>\<open>(flow_event, number_particles)\<close>.
\<close>

fun flow_event_loop ::
  "nat \<Rightarrow> particle list \<Rightarrow> pycomplex \<times> real \<Rightarrow> error + (pycomplex \<times> real)" where
  "flow_event_loop n [] s = Inr s"
| "flow_event_loop n (p # ps) (flow_event, number_particles) =
     bind_e (flow_weight p) (\<lambda>w.
     bind_e (pt_abs p) (\<lambda>pt.
     bind_e (phi p) (\<lambda>ph.
       flow_event_loop n ps
         (py_add flow_event (NpC (flow_term n w pt ph)), number_particles + w))))"

text \<open>
  The loop over the events of \<^verbatim>\<open>integrated_flow\<close>. The state is the pair
  \<^verbatim>\<open>(flow_event_average, number_particles)\<close>; the test on \<^verbatim>\<open>number_particles\<close> is made
  after each event, on the running total.
\<close>

fun integrated_events ::
  "nat \<Rightarrow> particle list list \<Rightarrow> pycomplex \<times> real \<Rightarrow> error + (pycomplex \<times> real)" where
  "integrated_events n [] s = Inr s"
| "integrated_events n (event # events) (flow_event_average, number_particles) =
     bind_e (flow_event_loop n event (PyC 0, number_particles)) (\<lambda>(flow_event, number_particles').
       integrated_events n events
         (if number_particles' \<noteq> 0 then py_add flow_event_average flow_event else PyC 0,
          number_particles'))"

text \<open>
  \<^verbatim>\<open>integrated_flow\<close>: after the loop, \<^verbatim>\<open>flow_event_average /= number_particles\<close>, with
  no test.
\<close>

definition integrated_flow :: "nat \<Rightarrow> particle list list \<Rightarrow> error + pycomplex" where
  "integrated_flow n particle_data =
     bind_e (integrated_events n particle_data (PyC 0, 0)) (\<lambda>(flow_event_average, number_particles).
       py_div flow_event_average number_particles)"

text \<open>
  \<^verbatim>\<open>__differential_flow_calculation\<close>: per bin, the loop over the events adds every
  \<^verbatim>\<open>flow_event\<close> to \<^verbatim>\<open>flow_event_average\<close>; the division is made only when
  \<^verbatim>\<open>number_particles != 0.\<close>, else the bin's value is \<^verbatim>\<open>0. + 0.j\<close>.
\<close>

fun bin_events_loop ::
  "nat \<Rightarrow> particle list list \<Rightarrow> pycomplex \<times> real \<Rightarrow> error + (pycomplex \<times> real)" where
  "bin_events_loop n [] s = Inr s"
| "bin_events_loop n (event # events) (flow_event_average, number_particles) =
     bind_e (flow_event_loop n event (PyC 0, number_particles)) (\<lambda>(flow_event, number_particles').
       bin_events_loop n events (py_add flow_event_average flow_event, number_particles'))"

definition differential_bin :: "nat \<Rightarrow> particle list list \<Rightarrow> error + pycomplex" where
  "differential_bin n bin =
     bind_e (bin_events_loop n bin (PyC 0, 0)) (\<lambda>(flow_event_average, number_particles).
       if number_particles \<noteq> 0 then py_div flow_event_average number_particles
       else Inr (PyC 0))"

fun differential_flow_calculation ::
  "nat \<Rightarrow> particle list list list \<Rightarrow> error + pycomplex list" where
  "differential_flow_calculation n [] = Inr []"
| "differential_flow_calculation n (bin # bins) =
     bind_e (differential_bin n bin) (\<lambda>v.
     bind_e (differential_flow_calculation n bins) (\<lambda>vs. Inr (v # vs)))"

subsection \<open>The observables of the differential flow\<close>

text \<open>\<^verbatim>\<open>np.log\<close>: minus infinity at zero and NaN below it, with a warning and no exception.\<close>

definition np_log :: "real \<Rightarrow> xreal" where
  "np_log x = (if x > 0 then Fin (ln x) else if x = 0 then MInf else NaN)"

definition p_abs :: "particle \<Rightarrow> error + real" where
  "p_abs p =
     bind_e (px p) (\<lambda>a. bind_e (py p) (\<lambda>b. bind_e (pz p) (\<lambda>c.
       Inr (sqrt (a\<^sup>2 + b\<^sup>2 + c\<^sup>2)))))"

text \<open>
  \<^verbatim>\<open>momentum_rapidity_Y\<close> and \<^verbatim>\<open>pseudorapidity\<close>: the denominator is shifted by
  \<open>1e-10\<close> when it is closer than that to zero, so it is never zero.
\<close>

definition momentum_rapidity_Y :: "particle \<Rightarrow> error + xreal" where
  "momentum_rapidity_Y p =
     bind_e (E p) (\<lambda>e. bind_e (pz p) (\<lambda>c.
       let denominator = (if \<bar>e - c\<bar> < 1 / 10 ^ 10 then (e - c) + 1 / 10 ^ 10 else e - c)
       in Inr (xmul (Fin (1 / 2)) (np_log ((e + c) / denominator)))))"

definition pseudorapidity :: "particle \<Rightarrow> error + xreal" where
  "pseudorapidity p =
     bind_e (p_abs p) (\<lambda>a. bind_e (pz p) (\<lambda>c.
       let denominator = (if \<bar>a - c\<bar> < 1 / 10 ^ 10 then (a - c) + 1 / 10 ^ 10 else a - c)
       in Inr (xmul (Fin (1 / 2)) (np_log ((a + c) / denominator)))))"

text \<open>
  The value that \<^verbatim>\<open>differential_flow\<close> bins a particle by: \<^verbatim>\<open>val = 0.\<close>, then the
  \<^verbatim>\<open>if\<close>/\<^verbatim>\<open>elif\<close> chain on \<^verbatim>\<open>flow_as_function_of\<close>. (The \<^verbatim>\<open>print(val)\<close> of the
  pseudorapidity branch writes to the standard output and is not part of the model.)
\<close>

definition observable :: "string \<Rightarrow> particle \<Rightarrow> error + xreal" where
  "observable flow_as_function_of p =
     (if flow_as_function_of = ''pt'' then bind_e (pt_abs p) (\<lambda>v. Inr (Fin v))
      else if flow_as_function_of = ''rapidity'' then momentum_rapidity_Y p
      else if flow_as_function_of = ''pseudorapidity'' then pseudorapidity p
      else Inr (Fin 0))"

text \<open>The comparisons \<^verbatim>\<open>val >= b\<close> and \<^verbatim>\<open>val < b\<close>; both are false on NaN.\<close>

fun x_ge :: "xreal \<Rightarrow> real \<Rightarrow> bool" where
  "x_ge (Fin a) b = (a \<ge> b)"
| "x_ge PInf b = True"
| "x_ge MInf b = False"
| "x_ge NaN b = False"

fun x_lt :: "xreal \<Rightarrow> real \<Rightarrow> bool" where
  "x_lt (Fin a) b = (a < b)"
| "x_lt PInf b = False"
| "x_lt MInf b = True"
| "x_lt NaN b = False"

subsection \<open>The differential flow\<close>

text \<open>A loop that builds a list and stops at the first exception.\<close>

fun mapM_e :: "('a \<Rightarrow> error + 'b) \<Rightarrow> 'a list \<Rightarrow> error + 'b list" where
  "mapM_e f [] = Inr []"
| "mapM_e f (x # xs) = bind_e (f x) (\<lambda>y. bind_e (mapM_e f xs) (\<lambda>ys. Inr (y # ys)))"

text \<open>
  The innermost loop: the particles of one event whose value lies in
  \<^verbatim>\<open>[bins[bin], bins[bin+1])\<close>, in the order of the event.
\<close>

fun particles_event :: "string \<Rightarrow> real \<Rightarrow> real \<Rightarrow> particle list \<Rightarrow> error + particle list" where
  "particles_event var lo hi [] = Inr []"
| "particles_event var lo hi (p # ps) =
     bind_e (observable var p) (\<lambda>val.
     bind_e (particles_event var lo hi ps) (\<lambda>rest.
       Inr (if x_ge val lo \<and> x_lt val hi then p # rest else rest)))"

text \<open>
  \<^verbatim>\<open>for bin in range(len(bins)-1)\<close>, \<^verbatim>\<open>for event in range(len(particle_data))\<close>: one list
  of events per bin. \<^verbatim>\<open>range\<close> of a negative number is empty, as is \<open>[0..<0 - 1]\<close>.
\<close>

definition particles_bin ::
  "string \<Rightarrow> real list \<Rightarrow> particle list list \<Rightarrow> error + particle list list list" where
  "particles_bin var bins particle_data =
     mapM_e (\<lambda>bin. mapM_e (particles_event var (bins ! bin) (bins ! (bin + 1))) particle_data)
       [0..<length bins - 1]"

text \<open>
  The arguments as Python passes them: \<^verbatim>\<open>bins\<close> is a list, a numpy array or any other
  object; \<^verbatim>\<open>flow_as_function_of\<close> is a string or any other object.
\<close>

datatype bins_arg = BinsList "real list" | BinsArray "real list" | BinsOther

datatype str_arg = Str string | NotStr

fun bins_values :: "bins_arg \<Rightarrow> real list" where
  "bins_values (BinsList bs) = bs"
| "bins_values (BinsArray bs) = bs"
| "bins_values BinsOther = []"

definition differential_flow ::
  "nat \<Rightarrow> particle list list \<Rightarrow> bins_arg \<Rightarrow> str_arg \<Rightarrow> error + pycomplex list" where
  "differential_flow n particle_data bins flow_as_function_of =
     (if bins = BinsOther then Inl (TypeError ''bins has to be list or np.ndarray'')
      else case flow_as_function_of of
        NotStr \<Rightarrow> Inl (TypeError ''flow_as_function_of is not a string'')
      | Str var \<Rightarrow>
          if var \<notin> set [''pt'', ''rapidity'', ''pseudorapidity'']
          then Inl (ValueError ''flow_as_function_of must be either pt, rapidity, pseudorapidity'')
          else bind_e (particles_bin var (bins_values bins) particle_data)
                 (differential_flow_calculation n))"

subsection \<open>Construction of a particle from an array (Particle.py)\<close>

text \<open>
  The properties of a PDG code come from the class \<^verbatim>\<open>PDGID\<close> of the package
  \<^verbatim>\<open>particle\<close>, which is not part of the repository: the functions below take the lookup
  as the parameter \<open>L\<close>, from the stored code to the properties of its \<^verbatim>\<open>PDGID\<close> object.
\<close>

record pdgid =
  is_valid :: bool
  pdgid_charge :: "real option"
  pdgid_J :: "real option"
  pdgid_j_spin :: "real option"
  pdgid_is_meson :: bool
  pdgid_is_baryon :: bool
  pdgid_is_hadron :: bool
  has_strange :: bool
  has_charm :: bool
  has_bottom :: bool
  has_top :: bool

text \<open>
  \<^verbatim>\<open>attribute_mapping\<close>: for each input format, the attributes and their columns, in the
  order of the dictionary. The first twelve columns are those of \<^verbatim>\<open>Oscar2013\<close> in the three
  extended formats, which also share the next eight; the lists are written once.
\<close>

definition oscar2013_columns :: "(string \<times> nat) list" where
  "oscar2013_columns =
     [(''t_'', 0), (''x_'', 1), (''y_'', 2), (''z_'', 3), (''mass_'', 4), (''E_'', 5),
      (''px_'', 6), (''py_'', 7), (''pz_'', 8), (''pdg_'', 9), (''ID_'', 10),
      (''charge_'', 11)]"

definition extended_columns :: "(string \<times> nat) list" where
  "extended_columns =
     [(''ncoll_'', 12), (''form_time_'', 13), (''xsecfac_'', 14),
      (''proc_id_origin_'', 15), (''proc_type_origin_'', 16), (''t_last_coll_'', 17),
      (''pdg_mother1_'', 18), (''pdg_mother2_'', 19)]"

definition extended_baryon_columns :: "(string \<times> nat) list" where
  "extended_baryon_columns =
     oscar2013_columns @ extended_columns @ [(''baryon_number_'', 20), (''strangeness_'', 21)]"

definition photons_columns :: "(string \<times> nat) list" where
  "photons_columns = oscar2013_columns @ extended_columns @ [(''weight_'', 20)]"

definition jetscape_columns :: "(string \<times> nat) list" where
  "jetscape_columns =
     [(''ID_'', 0), (''pdg_'', 1), (''status_'', 2), (''E_'', 3), (''px_'', 4),
      (''py_'', 5), (''pz_'', 6)]"

definition attribute_mapping :: "(string \<times> (string \<times> nat) list) list" where
  "attribute_mapping =
     [(''Oscar2013'', oscar2013_columns),
      (''Oscar2013Extended'', extended_baryon_columns),
      (''Oscar2013Extended_IC'', extended_baryon_columns),
      (''Oscar2013Extended_Photons'', photons_columns),
      (''JETSCAPE'', jetscape_columns)]"

text \<open>\<^verbatim>\<open>setattr(self, attribute, value)\<close> for the attribute names of the mapping.\<close>

definition setattr :: "string \<Rightarrow> real option \<Rightarrow> particle \<Rightarrow> particle" where
  "setattr attribute v p =
     (if attribute = ''t_'' then p\<lparr>t_attr := v\<rparr>
      else if attribute = ''x_'' then p\<lparr>x_attr := v\<rparr>
      else if attribute = ''y_'' then p\<lparr>y_attr := v\<rparr>
      else if attribute = ''z_'' then p\<lparr>z_attr := v\<rparr>
      else if attribute = ''mass_'' then p\<lparr>mass_attr := v\<rparr>
      else if attribute = ''E_'' then p\<lparr>E_attr := v\<rparr>
      else if attribute = ''px_'' then p\<lparr>px_attr := v\<rparr>
      else if attribute = ''py_'' then p\<lparr>py_attr := v\<rparr>
      else if attribute = ''pz_'' then p\<lparr>pz_attr := v\<rparr>
      else if attribute = ''pdg_'' then p\<lparr>pdg_attr := v\<rparr>
      else if attribute = ''ID_'' then p\<lparr>ID_attr := v\<rparr>
      else if attribute = ''charge_'' then p\<lparr>charge_attr := v\<rparr>
      else if attribute = ''ncoll_'' then p\<lparr>ncoll_attr := v\<rparr>
      else if attribute = ''form_time_'' then p\<lparr>form_time_attr := v\<rparr>
      else if attribute = ''xsecfac_'' then p\<lparr>xsecfac_attr := v\<rparr>
      else if attribute = ''proc_id_origin_'' then p\<lparr>proc_id_origin_attr := v\<rparr>
      else if attribute = ''proc_type_origin_'' then p\<lparr>proc_type_origin_attr := v\<rparr>
      else if attribute = ''t_last_coll_'' then p\<lparr>t_last_coll_attr := v\<rparr>
      else if attribute = ''pdg_mother1_'' then p\<lparr>pdg_mother1_attr := v\<rparr>
      else if attribute = ''pdg_mother2_'' then p\<lparr>pdg_mother2_attr := v\<rparr>
      else if attribute = ''baryon_number_'' then p\<lparr>baryon_number_attr := v\<rparr>
      else if attribute = ''strangeness_'' then p\<lparr>strangeness_attr := v\<rparr>
      else if attribute = ''weight_'' then p\<lparr>weight_attr := v\<rparr>
      else if attribute = ''status_'' then p\<lparr>status_attr := v\<rparr>
      else p)"

text \<open>
  The loop over the items of the mapping: a column beyond the end of the array leaves the
  attribute \<^verbatim>\<open>None\<close>.
\<close>

fun assign_attributes :: "(string \<times> nat) list \<Rightarrow> real list \<Rightarrow> particle \<Rightarrow> particle" where
  "assign_attributes [] particle_array p = p"
| "assign_attributes ((attribute, index) # rest) particle_array p =
     assign_attributes rest particle_array
       (if length particle_array < index + 1 then setattr attribute None p
        else setattr attribute (Some (particle_array ! index)) p)"

definition compute_mass_from_energy_momentum :: "particle \<Rightarrow> error + real" where
  "compute_mass_from_energy_momentum p =
     bind_e (E p) (\<lambda>e. bind_e (p_abs p) (\<lambda>a.
       if \<bar>e\<^sup>2 - a\<^sup>2\<bar> > 1 / 10 ^ 6 \<and> e\<^sup>2 - a\<^sup>2 > 0 then Inr (sqrt (e\<^sup>2 - a\<^sup>2))
       else Inr 0))"

text \<open>
  The queries derived from the PDG code. Each starts with
  \<^verbatim>\<open>if not self.pdg_valid_: return <default>\<close>; \<^verbatim>\<open>None\<close> and \<^verbatim>\<open>False\<close> are both false.
\<close>

definition pdg_valid_true :: "particle \<Rightarrow> bool" where
  "pdg_valid_true p \<longleftrightarrow> pdg_valid_attr p = Some True"

definition compute_charge_from_pdg :: "(real \<Rightarrow> pdgid) \<Rightarrow> particle \<Rightarrow> error + real option" where
  "compute_charge_from_pdg L p =
     (if \<not> pdg_valid_true p then Inr None
      else bind_e (pdg p) (\<lambda>c. Inr (pdgid_charge (L c))))"

definition is_meson :: "(real \<Rightarrow> pdgid) \<Rightarrow> particle \<Rightarrow> error + bool" where
  "is_meson L p =
     (if \<not> pdg_valid_true p then Inr False
      else bind_e (pdg p) (\<lambda>c. Inr (pdgid_is_meson (L c))))"

definition is_baryon :: "(real \<Rightarrow> pdgid) \<Rightarrow> particle \<Rightarrow> error + bool" where
  "is_baryon L p =
     (if \<not> pdg_valid_true p then Inr False
      else bind_e (pdg p) (\<lambda>c. Inr (pdgid_is_baryon (L c))))"

definition is_hadron :: "(real \<Rightarrow> pdgid) \<Rightarrow> particle \<Rightarrow> error + bool" where
  "is_hadron L p =
     (if \<not> pdg_valid_true p then Inr False
      else bind_e (pdg p) (\<lambda>c. Inr (pdgid_is_hadron (L c))))"

definition is_strange :: "(real \<Rightarrow> pdgid) \<Rightarrow> particle \<Rightarrow> error + bool" where
  "is_strange L p =
     (if \<not> pdg_valid_true p then Inr False
      else bind_e (pdg p) (\<lambda>c. Inr (has_strange (L c))))"

definition is_heavy_flavor :: "(real \<Rightarrow> pdgid) \<Rightarrow> particle \<Rightarrow> error + bool" where
  "is_heavy_flavor L p =
     (if \<not> pdg_valid_true p then Inr False
      else bind_e (pdg p) (\<lambda>c.
        if has_charm (L c) then Inr True
        else bind_e (pdg p) (\<lambda>c'.
          if has_bottom (L c') then Inr True
          else bind_e (pdg p) (\<lambda>c''. Inr (has_top (L c''))))))"

definition spin :: "(real \<Rightarrow> pdgid) \<Rightarrow> particle \<Rightarrow> error + real option" where
  "spin L p =
     (if \<not> pdg_valid_true p then Inr None
      else bind_e (pdg p) (\<lambda>c. Inr (pdgid_J (L c))))"

definition spin_degeneracy :: "(real \<Rightarrow> pdgid) \<Rightarrow> particle \<Rightarrow> error + real option" where
  "spin_degeneracy L p =
     (if \<not> pdg_valid_true p then Inr None
      else bind_e (pdg p) (\<lambda>c. Inr (pdgid_j_spin (L c))))"

text \<open>The warning of an invalid PDG code, with the code it names.\<close>

datatype warning = InvalidPDGWarning "real option"

text \<open>
  The end of \<^verbatim>\<open>__initialize_from_array\<close> and the setter of \<^verbatim>\<open>pdg\<close>:
  \<^verbatim>\<open>self.pdg_valid_ = PDGID(self.pdg_).is_valid\<close>, and a warning when it is false.
  \<^verbatim>\<open>PDGID(None)\<close> raises a \<^verbatim>\<open>TypeError\<close>.
\<close>

definition validate_pdg :: "(real \<Rightarrow> pdgid) \<Rightarrow> particle \<Rightarrow> error + (particle \<times> warning list)" where
  "validate_pdg L p =
     (case pdg_attr p of
        None \<Rightarrow> Inl (TypeError ''int() argument must be a string, a bytes-like object or a real number'')
      | Some c \<Rightarrow>
          let p' = p\<lparr>pdg_valid_attr := Some (is_valid (L c))\<rparr>
          in Inr (p', if \<not> is_valid (L c) then [InvalidPDGWarning (pdg_attr p')] else []))"

definition set_pdg ::
  "(real \<Rightarrow> pdgid) \<Rightarrow> real \<Rightarrow> particle \<Rightarrow> error + (particle \<times> warning list)" where
  "set_pdg L v p = validate_pdg L (p\<lparr>pdg_attr := Some v\<rparr>)"

text \<open>
  \<^verbatim>\<open>__initialize_from_array\<close>. For the JETSCAPE format the mass and the charge are
  computed; \<^verbatim>\<open>compute_charge_from_pdg\<close> runs before \<^verbatim>\<open>pdg_valid_\<close> is assigned.
\<close>

definition initialize_from_array ::
  "(real \<Rightarrow> pdgid) \<Rightarrow> string \<Rightarrow> real list \<Rightarrow> error + (particle \<times> warning list)" where
  "initialize_from_array L input_format particle_array =
     (case map_of attribute_mapping input_format of
        None \<Rightarrow> Inl (ValueError (''Unsupported input format '' @ input_format))
      | Some columns \<Rightarrow>
          if length particle_array = length columns
             \<or> (input_format \<in> set [''Oscar2013Extended'', ''Oscar2013Extended_IC'']
                \<and> length particle_array \<le> length columns
                \<and> length particle_array \<ge> length columns - 2)
          then
            let p = assign_attributes columns particle_array empty_particle
            in if input_format = ''JETSCAPE'' then
                 bind_e (compute_mass_from_energy_momentum p) (\<lambda>m.
                 bind_e (compute_charge_from_pdg L (p\<lparr>mass_attr := Some m\<rparr>)) (\<lambda>c.
                   validate_pdg L (p\<lparr>mass_attr := Some m, charge_attr := c\<rparr>)))
               else validate_pdg L p
          else Inl (ValueError ''The input file is corrupted!''))"

text \<open>
  \<^verbatim>\<open>Particle(input_format, particle_array)\<close>: both arguments or none; with none, every
  attribute stays \<^verbatim>\<open>None\<close>.
\<close>

definition Particle ::
  "(real \<Rightarrow> pdgid) \<Rightarrow> string option \<Rightarrow> real list option \<Rightarrow> error + (particle \<times> warning list)" where
  "Particle L input_format particle_array =
     (case (input_format, particle_array) of
        (Some f, Some a) \<Rightarrow> initialize_from_array L f a
      | (None, None) \<Rightarrow> Inr (empty_particle, [])
      | _ \<Rightarrow> Inl (ValueError ''input_format or particle_array not given''))"

subsection \<open>The flat ensemble average, as the specification states it\<close>

text \<open>
  The weight of a particle is its \<^verbatim>\<open>weight_\<close> attribute, or 1 when the attribute is unset;
  its angle is the value of \<^verbatim>\<open>phi\<close>. The flat sums run over all particles of all events.
\<close>

definition particle_weight :: "particle \<Rightarrow> real" where
  "particle_weight p = (case weight_attr p of None \<Rightarrow> 1 | Some w \<Rightarrow> w)"

definition particle_phi :: "particle \<Rightarrow> real" where
  "particle_phi p = (case phi p of Inl e \<Rightarrow> 0 | Inr a \<Rightarrow> a)"

definition particle_term :: "nat \<Rightarrow> particle \<Rightarrow> complex" where
  "particle_term n p =
     complex_of_real (particle_weight p) * exp (\<i> * complex_of_real (real n * particle_phi p))"

definition flat_sum :: "nat \<Rightarrow> particle list \<Rightarrow> complex" where
  "flat_sum n ps = (\<Sum>p\<leftarrow>ps. particle_term n p)"

definition flat_weight :: "particle list \<Rightarrow> real" where
  "flat_weight ps = (\<Sum>p\<leftarrow>ps. particle_weight p)"

text \<open>The momentum components are set.\<close>

definition momentum_set :: "particle \<Rightarrow> bool" where
  "momentum_set p \<longleftrightarrow> px_attr p \<noteq> None \<and> py_attr p \<noteq> None"

text \<open>The momentum components and the weight are set.\<close>

definition attributes_set :: "particle \<Rightarrow> bool" where
  "attributes_set p \<longleftrightarrow> px_attr p \<noteq> None \<and> py_attr p \<noteq> None \<and> weight_attr p \<noteq> None"

text \<open>The momentum components and the weight are set and the transverse momentum is not zero.\<close>

definition flow_ready :: "particle \<Rightarrow> bool" where
  "flow_ready p \<longleftrightarrow>
     (\<exists>a b w. px_attr p = Some a \<and> py_attr p = Some b \<and> weight_attr p = Some w
        \<and> (a \<noteq> 0 \<or> b \<noteq> 0))"

text \<open>A particle with the three attributes that the flow reads, for the examples.\<close>

definition flow_particle :: "real \<Rightarrow> real \<Rightarrow> real option \<Rightarrow> particle" where
  "flow_particle a b w =
     empty_particle\<lparr>px_attr := Some a, py_attr := Some b, weight_attr := w\<rparr>"

subsection \<open>The bins and the column counts, as the specification states them\<close>

text \<open>
  The value of the chosen observable of a particle, and the half-open interval
  \<open>[bins[k], bins[k+1])\<close>.
\<close>

definition observed :: "string \<Rightarrow> particle \<Rightarrow> xreal" where
  "observed var p = (case observable var p of Inl e \<Rightarrow> NaN | Inr v \<Rightarrow> v)"

definition in_bin :: "real list \<Rightarrow> nat \<Rightarrow> xreal \<Rightarrow> bool" where
  "in_bin bins k v \<longleftrightarrow> x_ge v (bins ! k) \<and> x_lt v (bins ! (k + 1))"

text \<open>
  The number of columns that each format declares, and the lengths that the specification
  accepts: exactly that number, or up to two fewer for the two historical extended formats.
\<close>

definition declared_columns :: "string \<Rightarrow> nat" where
  "declared_columns input_format =
     (if input_format = ''Oscar2013'' then 12
      else if input_format = ''Oscar2013Extended'' then 22
      else if input_format = ''Oscar2013Extended_IC'' then 22
      else if input_format = ''Oscar2013Extended_Photons'' then 21
      else if input_format = ''JETSCAPE'' then 7
      else 0)"

definition accepted_length :: "string \<Rightarrow> nat \<Rightarrow> bool" where
  "accepted_length input_format k \<longleftrightarrow>
     k = declared_columns input_format
     \<or> (input_format \<in> set [''Oscar2013Extended'', ''Oscar2013Extended_IC'']
        \<and> declared_columns input_format - 2 \<le> k \<and> k \<le> declared_columns input_format)"

text \<open>
  For the examples: a lookup under which every PDG code is invalid, and the particle that the
  JETSCAPE line \<^verbatim>\<open>0 99999 11 2 1 0 0\<close> makes under it.
\<close>

definition invalid_lookup :: "real \<Rightarrow> pdgid" where
  "invalid_lookup c = \<lparr> is_valid = False, pdgid_charge = None, pdgid_J = None,
     pdgid_j_spin = None, pdgid_is_meson = False, pdgid_is_baryon = False,
     pdgid_is_hadron = False, has_strange = False, has_charm = False,
     has_bottom = False, has_top = False \<rparr>"

definition invalid_jetscape_particle :: particle where
  "invalid_jetscape_particle =
     empty_particle\<lparr>ID_attr := Some 0, pdg_attr := Some 99999, status_attr := Some 11,
       E_attr := Some 2, px_attr := Some 1, py_attr := Some 0, pz_attr := Some 0,
       mass_attr := Some (sqrt 3), charge_attr := None, pdg_valid_attr := Some False\<rparr>"

subsection \<open>Strings as the loader reads them (JetscapeLoader.py)\<close>

text \<open>\<^verbatim>\<open>sub in line\<close>: the words of \<open>sub\<close> occur in \<open>line\<close>, side by side.\<close>

fun starts_with :: "string \<Rightarrow> string \<Rightarrow> bool" where
  "starts_with [] s = True"
| "starts_with (c # cs) [] = False"
| "starts_with (c # cs) (d # ds) = (c = d \<and> starts_with cs ds)"

fun contains :: "string \<Rightarrow> string \<Rightarrow> bool" where
  "contains sub [] = (sub = [])"
| "contains sub (c # cs) = (starts_with sub (c # cs) \<or> contains sub cs)"

text \<open>
  \<^verbatim>\<open>line.split(' ')\<close>: the pieces between single blanks, empty pieces included. The
  accumulator holds the current piece, reversed.
\<close>

fun split_blank :: "string \<Rightarrow> string \<Rightarrow> string list" where
  "split_blank cur [] = [rev cur]"
| "split_blank cur (c # cs) =
     (if c = CHR '' '' then rev cur # split_blank [] cs else split_blank (c # cur) cs)"

text \<open>\<^verbatim>\<open>line.replace('\n','').replace('\t',' ').split(' ')\<close>\<close>

definition words_of :: "string \<Rightarrow> string list" where
  "words_of line =
     split_blank []
       (map (\<lambda>c. if c = CHR 0x09 then CHR '' '' else c) (filter (\<lambda>c. c \<noteq> CHR 0x0A) line))"

text \<open>\<^verbatim>\<open>words[i]\<close>, with the \<^verbatim>\<open>IndexError\<close> of a list that is too short.\<close>

definition word_at :: "string list \<Rightarrow> nat \<Rightarrow> error + string" where
  "word_at ws i = (if i < length ws then Inr (ws ! i) else Inl (IndexError ''list index out of range''))"

text \<open>
  The whitespace of a Python \<^verbatim>\<open>str\<close>, among the ASCII characters: tab, line feed, vertical
  tab, form feed, carriage return, the four separators \<open>0x1C\<close> to \<open>0x1F\<close>, and the blank.
\<close>

definition isspace :: "char \<Rightarrow> bool" where
  "isspace c \<longleftrightarrow> c \<in> set [CHR 0x09, CHR 0x0A, CHR 0x0B, CHR 0x0C, CHR 0x0D,
                            CHR 0x1C, CHR 0x1D, CHR 0x1E, CHR 0x1F, CHR '' '']"

text \<open>\<^verbatim>\<open>s.strip()\<close> and \<^verbatim>\<open>s.split()\<close>: the latter gives the maximal runs without whitespace.\<close>

definition strip :: "string \<Rightarrow> string" where
  "strip s = rev (dropWhile isspace (rev (dropWhile isspace s)))"

fun split_space :: "string \<Rightarrow> string \<Rightarrow> string list" where
  "split_space cur [] = (if cur = [] then [] else [rev cur])"
| "split_space cur (c # cs) =
     (if isspace c then (if cur = [] then split_space [] cs else rev cur # split_space [] cs)
      else split_space (c # cur) cs)"

definition py_split :: "string \<Rightarrow> string list" where
  "py_split s = split_space [] s"

subsection \<open>The last line and the cross section\<close>

text \<open>
  \<^verbatim>\<open>get_last_line\<close> reads the file as bytes. \<^verbatim>\<open>file.seek(-2, 2)\<close> fails on a file of
  fewer than two bytes. The loop \<^verbatim>\<open>while file.read(1) != b'\n': file.seek(-2, 1)\<close> reads
  the byte at the position, and steps one byte back when it is not a line feed; stepping
  back from the first byte is a seek to a negative position, which raises \<^verbatim>\<open>OSError\<close>.
  \<open>scan_back bs p\<close> is the loop with the position at \<open>p\<close>; it returns the position after
  the line feed.
\<close>

fun scan_back :: "string \<Rightarrow> nat \<Rightarrow> error + nat" where
  "scan_back bs 0 =
     (if bs ! 0 = CHR 0x0A then Inr 1 else Inl (OSError ''[Errno 22] Invalid argument''))"
| "scan_back bs (Suc p) =
     (if bs ! Suc p = CHR 0x0A then Inr (Suc (Suc p)) else scan_back bs p)"

text \<open>\<^verbatim>\<open>file.readline()\<close> at a position: up to the next line feed, which it includes.\<close>

definition readline_at :: "string \<Rightarrow> nat \<Rightarrow> string" where
  "readline_at bs pos =
     (let rest = drop pos bs
      in takeWhile (\<lambda>c. c \<noteq> CHR 0x0A) rest @ (if CHR 0x0A \<in> set rest then [CHR 0x0A] else []))"

text \<open>
  The bytes are decoded before \<^verbatim>\<open>strip\<close>; the model is the one of ASCII bytes, which decode
  to themselves.
\<close>

definition get_last_line :: "string \<Rightarrow> error + string" where
  "get_last_line bs =
     (if length bs < 2 then Inl (OSError ''[Errno 22] Invalid argument'')
      else bind_e (scan_back bs (length bs - 2)) (\<lambda>pos. Inr (strip (readline_at bs pos))))"

text \<open>
  The loop of \<^verbatim>\<open>get_sigmaGen\<close> over the words: a word that \<^verbatim>\<open>float\<close> converts is appended
  to \<^verbatim>\<open>numbers\<close>, and the loop stops at two numbers. The conversion \<^verbatim>\<open>float(word)\<close> of
  Python is the parameter \<open>to_float\<close>, with \<open>None\<close> for its \<^verbatim>\<open>ValueError\<close>.
\<close>

fun collect_numbers :: "(string \<Rightarrow> real option) \<Rightarrow> string list \<Rightarrow> real list \<Rightarrow> real list" where
  "collect_numbers to_float [] numbers = numbers"
| "collect_numbers to_float (word # words) numbers =
     (case to_float word of
        None \<Rightarrow> collect_numbers to_float words numbers
      | Some number \<Rightarrow>
          if length (numbers @ [number]) = 2 then numbers @ [number]
          else collect_numbers to_float words (numbers @ [number]))"

definition get_sigmaGen :: "(string \<Rightarrow> real option) \<Rightarrow> string \<Rightarrow> error + (real \<times> real)" where
  "get_sigmaGen to_float file_bytes =
     bind_e (get_last_line file_bytes) (\<lambda>last_line.
       case collect_numbers to_float (py_split last_line) [] of
         a # b # rest \<Rightarrow> Inr (a, b)
       | _ \<Rightarrow> Inl (IndexError ''list index out of range''))"

subsection \<open>The filters of the keyword arguments\<close>

text \<open>
  A value of the filter mapping, as far as the loader looks at it: the loader tests the
  truth of the value of three filters and hands every other value on.
\<close>

datatype pyval = PyNone | PyBool bool | PyFloat real | PyTuple "pyval list"

fun truthy :: "pyval \<Rightarrow> bool" where
  "truthy PyNone = False"
| "truthy (PyBool b) = b"
| "truthy (PyFloat x) = (x \<noteq> 0)"
| "truthy (PyTuple vs) = (vs \<noteq> [])"

text \<open>
  The filter functions come from the module \<^verbatim>\<open>sparkx.Filter\<close>, which is not among the
  sources: they are parameters of the loader, one field each. A filter takes the list of
  events and returns it filtered, or raises.
\<close>

record 'p filter_functions =
  charged_particles :: "'p list list \<Rightarrow> error + 'p list list"
  uncharged_particles :: "'p list list \<Rightarrow> error + 'p list list"
  strange_particles :: "'p list list \<Rightarrow> error + 'p list list"
  particle_species :: "'p list list \<Rightarrow> pyval \<Rightarrow> error + 'p list list"
  remove_particle_species :: "'p list list \<Rightarrow> pyval \<Rightarrow> error + 'p list list"
  lower_event_energy_cut :: "'p list list \<Rightarrow> pyval \<Rightarrow> error + 'p list list"
  pt_cut :: "'p list list \<Rightarrow> pyval \<Rightarrow> error + 'p list list"
  rapidity_cut :: "'p list list \<Rightarrow> pyval \<Rightarrow> error + 'p list list"
  pseudorapidity_cut :: "'p list list \<Rightarrow> pyval \<Rightarrow> error + 'p list list"
  spatial_rapidity_cut :: "'p list list \<Rightarrow> pyval \<Rightarrow> error + 'p list list"
  multiplicity_cut :: "'p list list \<Rightarrow> pyval \<Rightarrow> error + 'p list list"
  particle_status :: "'p list list \<Rightarrow> pyval \<Rightarrow> error + 'p list list"

text \<open>
  The value of the key \<^verbatim>\<open>filters\<close>: a dictionary, as the list of its items in the order of
  its keys (which are distinct), or any other object.
\<close>

datatype filters_arg = FiltersDict "(string \<times> pyval) list" | FiltersOther

text \<open>One turn of the loop \<^verbatim>\<open>for i in filters_dict.keys()\<close>, on the key and its value.\<close>

definition apply_filter ::
  "'p filter_functions \<Rightarrow> string \<Rightarrow> pyval \<Rightarrow> 'p list list \<Rightarrow> error + 'p list list" where
  "apply_filter F i v event =
     (if i = ''charged_particles'' then (if truthy v then charged_particles F event else Inr event)
      else if i = ''uncharged_particles'' then
        (if truthy v then uncharged_particles F event else Inr event)
      else if i = ''strange_particles'' then
        (if truthy v then strange_particles F event else Inr event)
      else if i = ''particle_species'' then particle_species F event v
      else if i = ''remove_particle_species'' then remove_particle_species F event v
      else if i = ''lower_event_energy_cut'' then lower_event_energy_cut F event v
      else if i = ''pt_cut'' then pt_cut F event v
      else if i = ''rapidity_cut'' then rapidity_cut F event v
      else if i = ''pseudorapidity_cut'' then pseudorapidity_cut F event v
      else if i = ''spatial_rapidity_cut'' then spatial_rapidity_cut F event v
      else if i = ''multiplicity_cut'' then multiplicity_cut F event v
      else if i = ''particle_status'' then particle_status F event v
      else Inl (ValueError ''The cut is unknown!''))"

fun apply_filters_loop ::
  "'p filter_functions \<Rightarrow> (string \<times> pyval) list \<Rightarrow> 'p list list \<Rightarrow> error + 'p list list" where
  "apply_filters_loop F [] event = Inr event"
| "apply_filters_loop F ((i, v) # items) event =
     bind_e (apply_filter F i v event) (apply_filters_loop F items)"

text \<open>
  \<^verbatim>\<open>__apply_kwargs_filters\<close>: the event comes back as it is when the argument is not a
  dictionary or is an empty one.
\<close>

fun apply_kwargs_filters ::
  "'p filter_functions \<Rightarrow> 'p list list \<Rightarrow> filters_arg \<Rightarrow> error + 'p list list" where
  "apply_kwargs_filters F event FiltersOther = Inr event"
| "apply_kwargs_filters F event (FiltersDict items) = apply_filters_loop F items event"

subsection \<open>The keyword arguments of load\<close>

text \<open>
  The value of the key \<^verbatim>\<open>events\<close>: an integer, a pair of integers, or any other object.
  The keyword arguments: the three keys that \<^verbatim>\<open>load\<close> knows, each present or not, and
  the other keys.
\<close>

datatype events_arg = EventsInt int | EventsTuple int int | EventsOther

record kwargs =
  kw_events :: "events_arg option"
  kw_filters :: "filters_arg option"
  kw_particletype :: "str_arg option"
  kw_other_keys :: "string list"

subsection \<open>The index pass over the file\<close>

text \<open>
  A file is the list of its lines, as \<^verbatim>\<open>readline\<close> returns them; at the end of the file
  \<^verbatim>\<open>readline\<close> returns the empty string. The conversion of a word to an integer
  (\<^verbatim>\<open>int(word)\<close>, and the conversion that \<^verbatim>\<open>np.asarray\<close> makes) is the parameter \<open>to_int\<close>,
  with \<open>None\<close> for its \<^verbatim>\<open>ValueError\<close>. The table \<^verbatim>\<open>num_output_per_event_\<close> is a list of
  rows (event, count); the bounds of \<^verbatim>\<open>int32\<close> are outside the model.

  \<^verbatim>\<open>set_num_output_per_event\<close>: the loop collects the words 2 and 8 of every line that
  holds \<^verbatim>\<open>#\<close> and the defining string; the conversion of the words follows the loop.
\<close>

fun collect_event_output :: "string \<Rightarrow> string list \<Rightarrow> error + (string \<times> string) list" where
  "collect_event_output defining_string [] = Inr []"
| "collect_event_output defining_string (line # lines) =
     (if line = [] then Inr []
      else if contains ''#'' line \<and> contains defining_string line then
        bind_e (word_at (words_of line) 2) (\<lambda>event.
        bind_e (word_at (words_of line) 8) (\<lambda>num_output.
        bind_e (collect_event_output defining_string lines) (\<lambda>event_output.
          Inr ((event, num_output) # event_output))))
      else collect_event_output defining_string lines)"

definition convert_word :: "(string \<Rightarrow> int option) \<Rightarrow> string \<Rightarrow> error + int" where
  "convert_word to_int w =
     (case to_int w of
        None \<Rightarrow> Inl (ValueError ''invalid literal for int() with base 10'')
      | Some k \<Rightarrow> Inr k)"

definition convert_row ::
  "(string \<Rightarrow> int option) \<Rightarrow> string \<times> string \<Rightarrow> error + (int \<times> int)" where
  "convert_row to_int row =
     bind_e (convert_word to_int (fst row)) (\<lambda>event.
     bind_e (convert_word to_int (snd row)) (\<lambda>num_output. Inr (event, num_output)))"

definition set_num_output_per_event ::
  "(string \<Rightarrow> int option) \<Rightarrow> string \<Rightarrow> string list \<Rightarrow> error + ((int \<times> int) list \<times> int)" where
  "set_num_output_per_event to_int defining_string file =
     bind_e (collect_event_output defining_string file) (\<lambda>event_output.
     bind_e (mapM_e (convert_row to_int) event_output) (\<lambda>table.
       Inr (table, int (length table))))"

subsection \<open>The window of lines to read\<close>

text \<open>
  \<^verbatim>\<open>self.num_output_per_event_[i, 1]\<close>, with the \<^verbatim>\<open>IndexError\<close> of numpy beyond the table;
  the indices of the loader are not negative.
\<close>

definition count_at :: "(int \<times> int) list \<Rightarrow> nat \<Rightarrow> error + int" where
  "count_at table i =
     (if i < length table then Inr (snd (table ! i))
      else Inl (IndexError ''index is out of bounds for axis 0''))"

text \<open>The sum of \<^verbatim>\<open>num_output_per_event_[i, 1] + 1\<close> over a list of indices.\<close>

fun cumulate_lines :: "(int \<times> int) list \<Rightarrow> nat list \<Rightarrow> int \<Rightarrow> error + int" where
  "cumulate_lines table [] cumulated = Inr cumulated"
| "cumulate_lines table (i # is) cumulated =
     bind_e (count_at table i) (\<lambda>c. cumulate_lines table is (cumulated + (c + 1)))"

definition get_num_skip_lines :: "kwargs \<Rightarrow> (int \<times> int) list \<Rightarrow> error + int" where
  "get_num_skip_lines kw table =
     (case kw_events kw of
        None \<Rightarrow> Inr 1
      | Some (EventsInt k) \<Rightarrow>
          if k = 0 then Inr 1
          else bind_e (cumulate_lines table [0..<nat k] 0) (\<lambda>c. Inr (1 + c))
      | Some (EventsTuple line_start event_end) \<Rightarrow>
          if line_start = 0 then Inr 1
          else bind_e (cumulate_lines table [0..<nat line_start] 0) (\<lambda>c. Inr (1 + c))
      | Some EventsOther \<Rightarrow>
          Inl (TypeError ''Value given as flag events is not of type int or a tuple of two int values''))"

text \<open>
  \<^verbatim>\<open>__get_num_read_lines\<close>. Without the key \<^verbatim>\<open>events\<close> the counts are summed with
  \<^verbatim>\<open>np.sum(..., axis=0)[1]\<close>, which on the empty table is an index into a number and raises.
\<close>

definition get_num_read_lines :: "kwargs \<Rightarrow> (int \<times> int) list \<Rightarrow> error + int" where
  "get_num_read_lines kw table =
     bind_e
       (case kw_events kw of
          None \<Rightarrow>
            if table = [] then Inl (IndexError ''invalid index to scalar variable'')
            else Inr (sum_list (map snd table) + int (length table))
        | Some (EventsInt read_event) \<Rightarrow>
            bind_e (count_at table (nat read_event)) (\<lambda>c. Inr (c + 1))
        | Some (EventsTuple event_start event_end) \<Rightarrow>
            cumulate_lines table [nat event_start..<nat (event_end + 1)] 0
        | Some EventsOther \<Rightarrow>
            Inl (TypeError ''Value given as flag events is not of type int or a tuple''))
       (\<lambda>cumulated_lines. Inr (cumulated_lines + 1))"

text \<open>
  Modelled from the spec: \<^verbatim>\<open>BaseLoader._skip_lines\<close>, which is not among the sources. The
  lines before the first requested event are skipped: as many lines are read and dropped as
  \<^verbatim>\<open>_get_num_skip_lines\<close> counts.
\<close>

definition skip_lines :: "int \<Rightarrow> string list \<Rightarrow> string list" where
  "skip_lines num_skip file = drop (nat num_skip) file"

subsection \<open>The bounded read pass\<close>

text \<open>
  The number of the first event header of the window:
  \<^verbatim>\<open>1 + int(kwargs['events'])\<close> or \<^verbatim>\<open>1 + int(kwargs['events'][0])\<close>.
\<close>

definition first_event_header :: "kwargs \<Rightarrow> error + int" where
  "first_event_header kw =
     (case kw_events kw of
        None \<Rightarrow> Inr 1
      | Some (EventsInt k) \<Rightarrow> Inr (1 + k)
      | Some (EventsTuple a b) \<Rightarrow> Inr (1 + a)
      | Some EventsOther \<Rightarrow> Inl (TypeError ''object is not subscriptable''))"

text \<open>
  The end of an event. With the key \<^verbatim>\<open>filters\<close> the event is filtered and its row in the
  table is overwritten, at the index \<^verbatim>\<open>len(particle_list)\<close>, with the count after the
  filters; the event is then appended to \<^verbatim>\<open>particle_list\<close>.
\<close>

definition close_event ::
  "'p filter_functions \<Rightarrow> kwargs \<Rightarrow> 'p list list \<Rightarrow> 'p list \<Rightarrow> (int \<times> int) list
     \<Rightarrow> error + ('p list \<times> (int \<times> int) list)" where
  "close_event F kw particle_list data table =
     (case kw_filters kw of
        None \<Rightarrow> Inr (data, table)
      | Some fs \<Rightarrow>
          bind_e (apply_kwargs_filters F [data] fs) (\<lambda>filtered.
            case filtered of
              [] \<Rightarrow> Inl (IndexError ''list index out of range'')
            | data' # others \<Rightarrow>
                if length particle_list < length table
                then Inr (data', table[length particle_list :=
                            (int (length particle_list) + 1, int (length data'))])
                else Inl (IndexError ''index is out of bounds for axis 0'')))"

text \<open>
  The loop \<^verbatim>\<open>for i in range(0, num_read_lines)\<close> of \<^verbatim>\<open>set_particle_list\<close>. The arguments
  are the index \<open>i\<close>, the number of turns left, the lines not yet read and the state
  \<^verbatim>\<open>(particle_list, data, num_output_per_event_)\<close>. The construction of a particle from the
  words of a line, \<^verbatim>\<open>Particle("JETSCAPE", line)\<close>, is the parameter \<open>make_particle\<close>.
\<close>

fun read_lines ::
  "(string \<Rightarrow> int option) \<Rightarrow> (string list \<Rightarrow> error + 'p) \<Rightarrow> 'p filter_functions \<Rightarrow> kwargs
     \<Rightarrow> nat \<Rightarrow> nat \<Rightarrow> string list \<Rightarrow> 'p list list \<times> 'p list \<times> (int \<times> int) list
     \<Rightarrow> error + ('p list list \<times> 'p list \<times> (int \<times> int) list)" where
  "read_lines to_int make_particle F kw i 0 file state = Inr state"
| "read_lines to_int make_particle F kw i (Suc turns) [] state =
     Inl (IndexError ''Index out of range of JETSCAPE file'')"
| "read_lines to_int make_particle F kw i (Suc turns) (line # file) (particle_list, data, table) =
     (if line = [] then Inl (IndexError ''Index out of range of JETSCAPE file'')
      else if contains ''#'' line \<and> contains ''sigmaGen'' line then
        bind_e (close_event F kw particle_list data table) (\<lambda>(data', table').
          read_lines to_int make_particle F kw (Suc i) turns file
            (particle_list @ [data'], data', table'))
      else if i = 0 \<and> \<not> contains ''#'' line \<and> \<not> contains ''weight'' line then
        Inl (ValueError ''First line of the event is not a comment line or does not contain weight'')
      else if contains ''Event'' line \<and> contains ''weight'' line then
        bind_e (first_event_header kw) (\<lambda>first.
        bind_e (word_at (words_of line) 2) (\<lambda>w.
        bind_e (convert_word to_int w) (\<lambda>number.
          if number = first then
            read_lines to_int make_particle F kw (Suc i) turns file (particle_list, data, table)
          else
            bind_e (close_event F kw particle_list data table) (\<lambda>(data', table').
              read_lines to_int make_particle F kw (Suc i) turns file
                (particle_list @ [data'], [], table')))))
      else
        bind_e (make_particle (words_of line)) (\<lambda>particle.
          read_lines to_int make_particle F kw (Suc i) turns file
            (particle_list, data @ [particle], table)))"

text \<open>
  The end of \<^verbatim>\<open>set_particle_list\<close>: without the key \<^verbatim>\<open>events\<close> the number of events read
  must be the number of events indexed; with an integer the table keeps the row of that
  event; with a pair \<open>(event_start, event_end)\<close> the table becomes the slice
  \<^verbatim>\<open>[event_start : event_end+1]\<close> and the number of events
  \<open>event_end - event_start + 1\<close>.
\<close>

definition reconcile ::
  "kwargs \<Rightarrow> 'p list list \<Rightarrow> (int \<times> int) list \<Rightarrow> int
     \<Rightarrow> error + ('p list list \<times> int \<times> (int \<times> int) list)" where
  "reconcile kw particle_list table num_events =
     (case kw_events kw of
        None \<Rightarrow>
          if int (length particle_list) \<noteq> num_events
          then Inl (IndexError ''Number of events in Jetscape file does not match the number of events specified by the comments in the Jetscape file!'')
          else Inr (particle_list, num_events, table)
      | Some (EventsInt k) \<Rightarrow>
          if nat k < length table then Inr (particle_list, 1, [table ! nat k])
          else Inl (IndexError ''index is out of bounds for axis 0'')
      | Some (EventsTuple event_start event_end) \<Rightarrow>
          Inr (particle_list, event_end - event_start + 1,
               take (nat (event_end + 1) - nat event_start) (drop (nat event_start) table))
      | Some EventsOther \<Rightarrow> Inr (particle_list, num_events, table))"

definition set_particle_list ::
  "(string \<Rightarrow> int option) \<Rightarrow> (string list \<Rightarrow> error + 'p) \<Rightarrow> 'p filter_functions \<Rightarrow> kwargs
     \<Rightarrow> string list \<Rightarrow> (int \<times> int) list \<Rightarrow> int
     \<Rightarrow> error + ('p list list \<times> int \<times> (int \<times> int) list)" where
  "set_particle_list to_int make_particle F kw file table num_events =
     bind_e (get_num_read_lines kw table) (\<lambda>num_read_lines.
     bind_e (get_num_skip_lines kw table) (\<lambda>num_skip.
     bind_e (read_lines to_int make_particle F kw 0 (nat num_read_lines)
               (skip_lines num_skip file) ([], [], table)) (\<lambda>(particle_list, data, table').
       reconcile kw particle_list table' num_events)))"

subsection \<open>load\<close>

text \<open>
  The checks of \<^verbatim>\<open>load\<close> on the keyword arguments, then the two passes. The result is the
  triple \<^verbatim>\<open>(particle_list, num_events_, num_output_per_event_)\<close>. The particle type of a new
  loader is \<^verbatim>\<open>hadron\<close>.
\<close>

definition check_events :: "kwargs \<Rightarrow> error + unit" where
  "check_events kw =
     (case kw_events kw of
        Some (EventsTuple a b) \<Rightarrow>
          if a > b then Inl (ValueError ''First value of event number tuple must be smaller than second value'')
          else if a < 0 \<or> b < 0 then Inl (ValueError ''Event numbers must be positive'')
          else Inr ()
      | Some (EventsInt k) \<Rightarrow>
          if k < 0 then Inl (ValueError ''Event number must be positive'') else Inr ()
      | _ \<Rightarrow> Inr ())"

definition check_particletype :: "kwargs \<Rightarrow> error + string" where
  "check_particletype kw =
     (case kw_particletype kw of
        None \<Rightarrow> Inr ''hadron''
      | Some (Str s) \<Rightarrow>
          if s = ''hadron'' \<or> s = ''parton'' then Inr s
          else Inl (ValueError ''particletype has to be hadron or parton'')
      | Some NotStr \<Rightarrow> Inl (TypeError ''particletype is not given as a string value''))"

definition particle_type_defining_string :: "string \<Rightarrow> string" where
  "particle_type_defining_string particle_type =
     (if particle_type = ''hadron'' then ''N_hadrons'' else ''N_partons'')"

definition load ::
  "(string \<Rightarrow> int option) \<Rightarrow> (string list \<Rightarrow> error + 'p) \<Rightarrow> 'p filter_functions \<Rightarrow> string list
     \<Rightarrow> kwargs \<Rightarrow> error + ('p list list \<times> int \<times> (int \<times> int) list)" where
  "load to_int make_particle F file kw =
     (if kw_other_keys kw \<noteq> [] then Inl (ValueError ''Unknown keyword argument used in constructor'')
      else
        bind_e (check_events kw) (\<lambda>u.
        bind_e (check_particletype kw) (\<lambda>particle_type.
        bind_e (set_num_output_per_event to_int (particle_type_defining_string particle_type) file)
          (\<lambda>(table, num_events).
            set_particle_list to_int make_particle F kw file table num_events))))"

subsection \<open>The last line and the filters, as the specification states them\<close>

text \<open>
  The numbers among the words of a line, in their order, and the bytes of a file whose lines
  all end in a line feed.
\<close>

definition float_words :: "(string \<Rightarrow> real option) \<Rightarrow> string \<Rightarrow> real list" where
  "float_words to_float line = List.map_filter to_float (py_split line)"

definition file_of_lines :: "string list \<Rightarrow> string" where
  "file_of_lines lines = concat (map (\<lambda>l. l @ [CHR 0x0A]) lines)"

text \<open>
  For the examples: the conversion of a word of decimal digits to a number. On such words, and
  on the words of the examples that are no numbers, \<^verbatim>\<open>int\<close> and \<^verbatim>\<open>float\<close> of Python agree
  with it.
\<close>

fun digits_value :: "string \<Rightarrow> nat \<Rightarrow> nat option" where
  "digits_value [] acc = Some acc"
| "digits_value (c # cs) acc =
     (if 48 \<le> (of_char c :: nat) \<and> (of_char c :: nat) \<le> 57
      then digits_value cs (10 * acc + (of_char c - 48))
      else None)"

definition decimal_word :: "string \<Rightarrow> nat option" where
  "decimal_word w = (if w = [] then None else digits_value w 0)"

definition decimal_float :: "string \<Rightarrow> real option" where
  "decimal_float w = map_option real (decimal_word w)"

definition decimal_int :: "string \<Rightarrow> int option" where
  "decimal_int w = map_option int (decimal_word w)"

text \<open>
  Modelled from the spec: the filter functions of \<^verbatim>\<open>sparkx.Filter\<close>, which is not among the
  sources and of which the specification says only that each takes the events and returns
  them filtered. For the examples, \<^verbatim>\<open>charged_particles\<close> keeps the particles whose property
  \<^verbatim>\<open>charge\<close> is not zero, \<^verbatim>\<open>pt_cut\<close> keeps those whose \<^verbatim>\<open>pt_abs\<close> lies between the two
  bounds, and the other filters keep every particle.
\<close>

fun filter_e :: "('a \<Rightarrow> error + bool) \<Rightarrow> 'a list \<Rightarrow> error + 'a list" where
  "filter_e test [] = Inr []"
| "filter_e test (x # xs) =
     bind_e (test x) (\<lambda>keep. bind_e (filter_e test xs) (\<lambda>rest.
       Inr (if keep then x # rest else rest)))"

definition example_filters :: "particle filter_functions" where
  "example_filters = \<lparr>
     charged_particles = mapM_e (filter_e (\<lambda>p. bind_e (charge p) (\<lambda>c. Inr (c \<noteq> 0)))),
     uncharged_particles = Inr,
     strange_particles = Inr,
     particle_species = (\<lambda>events v. Inr events),
     remove_particle_species = (\<lambda>events v. Inr events),
     lower_event_energy_cut = (\<lambda>events v. Inr events),
     pt_cut = (\<lambda>events v.
       case v of
         PyTuple [PyFloat lo, PyFloat hi] \<Rightarrow>
           mapM_e (filter_e (\<lambda>p. bind_e (pt_abs p) (\<lambda>pt. Inr (lo \<le> pt \<and> pt \<le> hi)))) events
       | _ \<Rightarrow> Inl (TypeError ''Input value must be a tuple of two numbers'')),
     rapidity_cut = (\<lambda>events v. Inr events),
     pseudorapidity_cut = (\<lambda>events v. Inr events),
     spatial_rapidity_cut = (\<lambda>events v. Inr events),
     multiplicity_cut = (\<lambda>events v. Inr events),
     particle_status = (\<lambda>events v. Inr events) \<rparr>"

definition charged_example_particle :: particle where
  "charged_example_particle = (flow_particle 1 0 None)\<lparr>charge_attr := Some 1\<rparr>"

subsection \<open>A valid JETSCAPE file, as the loader reads it\<close>

text \<open>
  The lines of a file, by the tests that the two passes make on them. The header of an
  event holds \<^verbatim>\<open>#\<close>, \<^verbatim>\<open>Event\<close>, \<^verbatim>\<open>weight\<close> and the defining string of the particle type; its
  word 2 is the number of the event and its word 8 the number of its particles. A line of
  data holds no \<^verbatim>\<open>#\<close>. The last line holds \<^verbatim>\<open>#\<close> and \<^verbatim>\<open>sigmaGen\<close>.
\<close>

definition is_event_header :: "(string \<Rightarrow> int option) \<Rightarrow> string \<Rightarrow> int \<Rightarrow> int \<Rightarrow> string \<Rightarrow> bool" where
  "is_event_header to_int defining_string k n line \<longleftrightarrow>
     contains ''#'' line \<and> contains defining_string line
     \<and> contains ''Event'' line \<and> contains ''weight'' line \<and> \<not> contains ''sigmaGen'' line
     \<and> 8 < length (words_of line)
     \<and> to_int (words_of line ! 2) = Some k \<and> to_int (words_of line ! 8) = Some n"

definition is_data_line :: "string \<Rightarrow> bool" where
  "is_data_line line \<longleftrightarrow>
     line \<noteq> [] \<and> \<not> contains ''#'' line
     \<and> \<not> (contains ''Event'' line \<and> contains ''weight'' line)"

definition is_terminator :: "string \<Rightarrow> string \<Rightarrow> bool" where
  "is_terminator defining_string line \<longleftrightarrow>
     contains ''#'' line \<and> contains ''sigmaGen'' line \<and> \<not> contains defining_string line"

definition is_file_header :: "string \<Rightarrow> string \<Rightarrow> bool" where
  "is_file_header defining_string line \<longleftrightarrow>
     line \<noteq> [] \<and> \<not> (contains ''#'' line \<and> contains defining_string line)"

text \<open>
  A valid file: a first line, then for each event its header, numbered from 1, and as many
  lines of data as the header declares, then the last line. \<open>counts\<close> are the declared
  numbers of particles.
\<close>

fun valid_events :: "(string \<Rightarrow> int option) \<Rightarrow> string \<Rightarrow> int \<Rightarrow> string list \<Rightarrow> nat list \<Rightarrow> bool" where
  "valid_events to_int D k lines [] = (case lines of [t] \<Rightarrow> is_terminator D t | _ \<Rightarrow> False)"
| "valid_events to_int D k lines (n # ns) =
     (case lines of
        [] \<Rightarrow> False
      | h # rest \<Rightarrow>
          is_event_header to_int D k (int n) h \<and> n \<le> length rest
          \<and> list_all is_data_line (take n rest)
          \<and> valid_events to_int D (k + 1) (drop n rest) ns)"

definition valid_file :: "(string \<Rightarrow> int option) \<Rightarrow> string \<Rightarrow> string list \<Rightarrow> nat list \<Rightarrow> bool" where
  "valid_file to_int D file counts =
     (case file of [] \<Rightarrow> False | h # rest \<Rightarrow> is_file_header D h \<and> valid_events to_int D 1 rest counts)"

text \<open>
  The lines of data of each event (the lines start at the header of the first event), the
  table that the headers declare, and the number of lines of a run of events, headers
  included.
\<close>

fun data_blocks :: "string list \<Rightarrow> nat list \<Rightarrow> string list list" where
  "data_blocks lines [] = []"
| "data_blocks lines (n # ns) = take n (tl lines) # data_blocks (drop (Suc n) lines) ns"

fun table_from :: "int \<Rightarrow> nat list \<Rightarrow> (int \<times> int) list" where
  "table_from k [] = []"
| "table_from k (n # ns) = (k, int n) # table_from (k + 1) ns"

definition lines_of :: "nat list \<Rightarrow> nat" where
  "lines_of ns = sum_list (map Suc ns)"

text \<open>The message of the \<^verbatim>\<open>IndexError\<close> that reports a wrong number of events.\<close>

definition mismatch_message :: string where
  "mismatch_message = ''Number of events in Jetscape file does not match the number of events specified by the comments in the Jetscape file!''"

text \<open>
  For the examples: filters that keep every particle; a file of three events with 1, 0 and 2
  particles; a file whose second header repeats the number of the first; and the keyword
  arguments \<^verbatim>\<open>events=(a, b)\<close> and none.
\<close>

definition no_filters :: "'p filter_functions" where
  "no_filters = \<lparr>
     charged_particles = Inr, uncharged_particles = Inr, strange_particles = Inr,
     particle_species = (\<lambda>events v. Inr events),
     remove_particle_species = (\<lambda>events v. Inr events),
     lower_event_energy_cut = (\<lambda>events v. Inr events),
     pt_cut = (\<lambda>events v. Inr events),
     rapidity_cut = (\<lambda>events v. Inr events),
     pseudorapidity_cut = (\<lambda>events v. Inr events),
     spatial_rapidity_cut = (\<lambda>events v. Inr events),
     multiplicity_cut = (\<lambda>events v. Inr events),
     particle_status = (\<lambda>events v. Inr events) \<rparr>"

definition example_file :: "string list" where
  "example_file =
     [''# JETSCAPE_FINAL_STATE v2 | N pid status E Px Py Pz'',
      ''# Event 1 weight 1 EPangle 0 N_hadrons 1'',
      ''0 211 11 2 1 0 0'',
      ''# Event 2 weight 1 EPangle 0 N_hadrons 0'',
      ''# Event 3 weight 1 EPangle 0 N_hadrons 2'',
      ''1 211 11 2 1 0 0'',
      ''2 111 11 2 0 1 0'',
      ''# sigmaGen 12 sigmaErr 3'']"

definition repeated_header_file :: "string list" where
  "repeated_header_file =
     [''# JETSCAPE_FINAL_STATE v2 | N pid status E Px Py Pz'',
      ''# Event 1 weight 1 EPangle 0 N_hadrons 0'',
      ''# Event 1 weight 1 EPangle 0 N_hadrons 0'',
      ''# sigmaGen 12 sigmaErr 3'']"

definition range_kwargs :: "int \<Rightarrow> int \<Rightarrow> kwargs" where
  "range_kwargs a b = \<lparr>kw_events = Some (EventsTuple a b), kw_filters = None,
     kw_particletype = None, kw_other_keys = []\<rparr>"

definition no_kwargs :: kwargs where
  "no_kwargs = \<lparr>kw_events = None, kw_filters = None, kw_particletype = None,
     kw_other_keys = []\<rparr>"

section \<open>Properties\<close>

subsection \<open>Sequencing, getters and finite complex values\<close>

lemma bind_e_Inr [simp]: "bind_e (Inr a) f = f a"
  by (simp add: bind_e_def)

lemma bind_e_Inl [simp]: "bind_e (Inl e) f = Inl e"
  by (simp add: bind_e_def)

lemma getter_Some [simp]: "getter name (Some a) = Inr a"
  by (simp add: getter_def)

lemma getter_None [simp]: "getter name None = Inl (ValueError (name @ '' not set''))"
  by (simp add: getter_def)

lemma c_add_fin [simp]: "c_add (c_fin a) (c_fin b) = c_fin (a + b)"
  by (simp add: c_fin_def)

lemma c_scale_fin [simp]: "c_scale w (c_fin z) = c_fin (complex_of_real w * z)"
  by (simp add: c_fin_def)

lemma c_div_real_fin [simp]: "r \<noteq> 0 \<Longrightarrow> c_div_real (c_fin z) r = c_fin (z / complex_of_real r)"
  by (simp add: c_fin_def)

lemma c_fin_inject [simp]: "c_fin a = c_fin b \<longleftrightarrow> a = b"
  by (auto simp: c_fin_def complex_eq_iff)

lemma to_np_py_add: "to_np (py_add a b) = c_add (to_np a) (to_np b)"
  by (cases a; cases b) simp_all

lemma xadd_NaN_right [simp]: "xadd a NaN = NaN"
  by (cases a) simp_all

lemma c_add_nan_right [simp]: "c_add c c_nan = c_nan"
  by (cases c) (simp add: c_nan_def)

lemma c_add_nan_left [simp]: "c_add c_nan c = c_nan"
  by (cases c) (simp add: c_nan_def)

lemma py_add_nan_right [simp]: "py_add fe (NpC c_nan) = NpC c_nan"
  by (cases fe) simp_all

lemma py_add_nan_left [simp]: "py_add (NpC c_nan) fe = NpC c_nan"
  by (cases fe) simp_all

lemma c_nan_not_fin [simp]: "c_nan \<noteq> c_fin z"
  by (simp add: c_nan_def c_fin_def)

subsection \<open>The particle loop on particles with a non-zero transverse momentum\<close>

lemma flow_term_fin:
  "pt \<noteq> 0 \<Longrightarrow> flow_term n w pt ph = c_fin (complex_of_real w * exp (\<i> * complex_of_real (real n * ph)))"
  by (simp add: flow_term_def)

lemma flow_ready_step:
  assumes "flow_ready p"
  shows "flow_event_loop n (p # ps) (fe, np) =
         flow_event_loop n ps
           (py_add fe (NpC (c_fin (particle_term n p))),
            np + particle_weight p)"
proof -
  from assms obtain a b w where h: "px_attr p = Some a" "py_attr p = Some b"
    "weight_attr p = Some w" "a \<noteq> 0 \<or> b \<noteq> 0"
    by (auto simp: flow_ready_def)
  have pt: "pt_abs p = Inr (sqrt (a\<^sup>2 + b\<^sup>2))"
    by (simp add: pt_abs_def px_def py_def h)
  have nz: "sqrt (a\<^sup>2 + b\<^sup>2) \<noteq> 0"
    using h(4) by (simp add: sum_power2_eq_zero_iff)
  have "\<exists>ph. phi p = Inr ph"
    by (simp add: phi_def px_def py_def h)
  then obtain ph where ph: "phi p = Inr ph" ..
  have w: "flow_weight p = Inr w"
    by (simp add: flow_weight_def weight_def h)
  have "flow_term n w (sqrt (a\<^sup>2 + b\<^sup>2)) ph = c_fin (particle_term n p)"
    unfolding particle_term_def particle_weight_def particle_phi_def h ph
    by (simp only: flow_term_fin [OF nz] option.case sum.case)
  then show ?thesis
    by (simp add: w pt ph particle_weight_def h)
qed

lemma flow_event_loop_ready:
  assumes "\<forall>p\<in>set ps. flow_ready p" and "to_np fe = c_fin z"
  shows "\<exists>fe'. flow_event_loop n ps (fe, np) = Inr (fe', np + flat_weight ps)
           \<and> to_np fe' = c_fin (z + flat_sum n ps)"
  using assms
proof (induction ps arbitrary: fe z np)
  case Nil
  then show ?case by (simp add: flat_weight_def flat_sum_def)
next
  case (Cons p ps)
  let ?t = "particle_term n p"
  have rdy: "flow_ready p" and rest: "\<forall>q\<in>set ps. flow_ready q"
    using Cons.prems(1) by simp_all
  have val: "to_np (py_add fe (NpC (c_fin ?t))) = c_fin (z + ?t)"
    by (simp add: to_np_py_add Cons.prems(2))
  from Cons.IH [OF rest val, of "np + particle_weight p"]
  obtain fe' where
    "flow_event_loop n ps (py_add fe (NpC (c_fin ?t)), np + particle_weight p) =
       Inr (fe', np + particle_weight p + flat_weight ps)"
    "to_np fe' = c_fin (z + ?t + flat_sum n ps)"
    by blast
  then show ?case
    unfolding flow_ready_step [OF rdy]
    by (simp add: flat_weight_def flat_sum_def add.assoc)
qed

lemma flat_weight_append [simp]: "flat_weight (xs @ ys) = flat_weight xs + flat_weight ys"
  by (simp add: flat_weight_def)

lemma flat_sum_append [simp]: "flat_sum n (xs @ ys) = flat_sum n xs + flat_sum n ys"
  by (simp add: flat_sum_def)

lemma flat_weight_Nil [simp]: "flat_weight [] = 0"
  by (simp add: flat_weight_def)

lemma flat_sum_Nil [simp]: "flat_sum n [] = 0"
  by (simp add: flat_sum_def)

subsection \<open>The particle loop on particles whose attributes are set\<close>

lemma attributes_set_step:
  assumes "attributes_set p"
  shows "\<exists>t. flow_event_loop n (p # ps) (fe, np) =
              flow_event_loop n ps (py_add fe (NpC t), np + particle_weight p)"
proof -
  from assms obtain a b w where h: "px_attr p = Some a" "py_attr p = Some b"
    "weight_attr p = Some w"
    by (auto simp: attributes_set_def)
  have "\<exists>ph. phi p = Inr ph"
    by (simp add: phi_def px_def py_def h)
  then obtain ph where ph: "phi p = Inr ph" ..
  show ?thesis
    by (rule exI [of _ "flow_term n w (sqrt (a\<^sup>2 + b\<^sup>2)) ph"])
       (simp add: flow_weight_def weight_def pt_abs_def px_def py_def ph h particle_weight_def)
qed

lemma flow_event_loop_total:
  assumes "\<forall>p\<in>set ps. attributes_set p"
  shows "\<exists>fe'. flow_event_loop n ps (fe, np) = Inr (fe', np + flat_weight ps)"
  using assms
proof (induction ps arbitrary: fe np)
  case Nil
  then show ?case by simp
next
  case (Cons p ps)
  then have "attributes_set p" and rest: "\<forall>q\<in>set ps. attributes_set q"
    by simp_all
  from attributes_set_step [OF this(1)] obtain t where
    "flow_event_loop n (p # ps) (fe, np) =
       flow_event_loop n ps (py_add fe (NpC t), np + particle_weight p)"
    by blast
  with Cons.IH [OF rest, of "py_add fe (NpC t)" "np + particle_weight p"]
  show ?case
    by (auto simp: flat_weight_def add.assoc)
qed

lemma integrated_events_Cons:
  assumes "flow_event_loop n ev (PyC 0, np) = Inr (fe, np1)"
  shows "integrated_events n (ev # evs) (fea, np) =
         integrated_events n evs (if np1 \<noteq> 0 then py_add fea fe else PyC 0, np1)"
  using assms by simp

lemma integrated_events_total:
  assumes "\<forall>p\<in>set (concat evs). attributes_set p"
  shows "\<exists>fea'. integrated_events n evs (fea, np) = Inr (fea', np + flat_weight (concat evs))"
  using assms
proof (induction evs arbitrary: fea np)
  case Nil
  then show ?case by simp
next
  case (Cons ev evs)
  then have ev: "\<forall>p\<in>set ev. attributes_set p"
    and rest: "\<forall>p\<in>set (concat evs). attributes_set p"
    by simp_all
  from flow_event_loop_total [OF ev] obtain fe where
    fe: "flow_event_loop n ev (PyC 0, np) = Inr (fe, np + flat_weight ev)"
    by blast
  from Cons.IH [OF rest, of "if np + flat_weight ev \<noteq> 0 then py_add fea fe else PyC 0"
      "np + flat_weight ev"]
  show ?case
    unfolding integrated_events_Cons [OF fe]
    by (simp only: concat.simps flat_weight_append add.assoc)
qed

lemma integrated_events_zero_total:
  assumes "integrated_events n evs (fea, np) = Inr (fea', 0)"
    and "evs = [] \<longrightarrow> fea = PyC 0"
  shows "fea' = PyC 0"
  using assms
proof (induction evs arbitrary: fea np)
  case Nil
  then show ?case by simp
next
  case (Cons ev evs)
  from Cons.prems(1) obtain fe np1 where
    fe: "flow_event_loop n ev (PyC 0, np) = Inr (fe, np1)"
    and rest: "integrated_events n evs
        (if np1 \<noteq> 0 then py_add fea fe else PyC 0, np1) = Inr (fea', 0)"
    by (auto simp: bind_e_def split: sum.splits)
  have "evs = [] \<longrightarrow> (if np1 \<noteq> 0 then py_add fea fe else PyC 0) = PyC 0"
    using rest by auto
  from Cons.IH [OF rest this] show ?case .
qed

lemma integrated_events_ready:
  assumes "\<forall>p\<in>set (concat evs). flow_ready p"
    and "to_np fea = c_fin z"
    and "\<forall>k. 1 \<le> k \<and> k \<le> length evs \<longrightarrow>
           np + flat_weight (concat (take k evs)) \<noteq> 0
           \<or> z + flat_sum n (concat (take k evs)) = 0"
  shows "\<exists>fea'. integrated_events n evs (fea, np) = Inr (fea', np + flat_weight (concat evs))
           \<and> to_np fea' = c_fin (z + flat_sum n (concat evs))"
  using assms
proof (induction evs arbitrary: fea z np)
  case Nil
  then show ?case by simp
next
  case (Cons ev evs)
  have ev: "\<forall>p\<in>set ev. flow_ready p"
    and rest: "\<forall>p\<in>set (concat evs). flow_ready p"
    using Cons.prems(1) by simp_all
  from flow_event_loop_ready [OF ev, of "PyC 0" 0 n np] obtain fe where
    fe: "flow_event_loop n ev (PyC 0, np) = Inr (fe, np + flat_weight ev)"
    and fev: "to_np fe = c_fin (flat_sum n ev)"
    by (auto simp: c_fin_def)
  let ?fea1 = "if np + flat_weight ev \<noteq> 0 then py_add fea fe else PyC 0"
  have first: "np + flat_weight ev \<noteq> 0 \<or> z + flat_sum n ev = 0"
    using Cons.prems(3) [rule_format, of 1] by simp
  have val: "to_np ?fea1 = c_fin (z + flat_sum n ev)"
    using first by (auto simp: to_np_py_add Cons.prems(2) fev)
  have later: "\<forall>k. 1 \<le> k \<and> k \<le> length evs \<longrightarrow>
      (np + flat_weight ev) + flat_weight (concat (take k evs)) \<noteq> 0
      \<or> (z + flat_sum n ev) + flat_sum n (concat (take k evs)) = 0"
  proof (intro allI impI)
    fix k assume "1 \<le> k \<and> k \<le> length evs"
    then show "(np + flat_weight ev) + flat_weight (concat (take k evs)) \<noteq> 0
      \<or> (z + flat_sum n ev) + flat_sum n (concat (take k evs)) = 0"
      using Cons.prems(3) [rule_format, of "Suc k"] by (simp add: add.assoc)
  qed
  from Cons.IH [OF rest val later] show ?case
    unfolding integrated_events_Cons [OF fe]
    by (simp only: concat.simps flat_weight_append flat_sum_append add.assoc)
qed

subsection \<open>The integrated flow\<close>

text \<open>
  Claim C1, as the code has it. When every particle has its momentum components and its
  weight set and a transverse momentum that is not zero, and when at the end of every event
  the running total of the weights is not zero (or the running flow sum is zero), then
  \<^verbatim>\<open>integrated_flow\<close> returns the sum of \<open>w * exp(i*n*phi)\<close> over all particles of all
  events divided by the sum of all weights, provided that this sum is not zero: one flat
  accumulation, with no average per event.
\<close>

theorem integrated_flow_flat_average:
  assumes "\<forall>p\<in>set (concat particle_data). flow_ready p"
    and "\<forall>k. 1 \<le> k \<and> k \<le> length particle_data \<longrightarrow>
           flat_weight (concat (take k particle_data)) \<noteq> 0
           \<or> flat_sum n (concat (take k particle_data)) = 0"
    and "flat_weight (concat particle_data) \<noteq> 0"
  shows "\<exists>v. integrated_flow n particle_data = Inr v
           \<and> to_np v = c_fin (flat_sum n (concat particle_data)
                              / complex_of_real (flat_weight (concat particle_data)))"
proof -
  have "to_np (PyC 0) = c_fin 0"
    by simp
  from integrated_events_ready [OF assms(1) this, of 0 n] assms(2)
  obtain fea where
    fea: "integrated_events n particle_data (PyC 0, 0) = Inr (fea, flat_weight (concat particle_data))"
    and val: "to_np fea = c_fin (flat_sum n (concat particle_data))"
    by auto
  show ?thesis
  proof (cases fea)
    case (PyC c)
    with val assms(3) show ?thesis
      by (simp add: integrated_flow_def fea)
  next
    case (NpC c)
    with val assms(3) show ?thesis
      by (simp add: integrated_flow_def fea)
  qed
qed

text \<open>
  C1, an instance: three events, the second one empty; the two particles point along the
  axes and weigh 2 and 1, and the second harmonic of the ensemble is \<open>(2 - 1) / 3\<close>.
\<close>

theorem integrated_flow_flat_average_witness:
  "flow_ready (flow_particle 1 0 (Some 2)) \<and> flow_ready (flow_particle 0 1 (Some 1))
   \<and> flat_weight (concat [[flow_particle 1 0 (Some 2)], [], [flow_particle 0 1 (Some 1)]]) = 3
   \<and> (\<exists>v. integrated_flow 2 [[flow_particle 1 0 (Some 2)], [], [flow_particle 0 1 (Some 1)]] = Inr v
          \<and> to_np v = c_fin (1 / 3))"
proof -
  let ?pd = "[[flow_particle 1 0 (Some 2)], [], [flow_particle 0 1 (Some 1)]]"
  have w1: "particle_weight (flow_particle 1 0 (Some 2)) = 2"
    and w2: "particle_weight (flow_particle 0 1 (Some 1)) = 1"
    by (simp_all add: particle_weight_def flow_particle_def)
  have ready: "\<forall>p\<in>set (concat ?pd). flow_ready p"
    by (simp add: flow_ready_def flow_particle_def)
  have total: "flat_weight (concat ?pd) = 3"
    by (simp add: flat_weight_def w1 w2)
  have sum: "flat_sum 2 (concat ?pd) = 1"
    by (simp add: flat_sum_def particle_term_def particle_weight_def particle_phi_def phi_def
        px_def py_def flow_particle_def empty_particle_def atan2_def)
  have running: "\<forall>k. 1 \<le> k \<and> k \<le> length ?pd \<longrightarrow>
      flat_weight (concat (take k ?pd)) \<noteq> 0 \<or> flat_sum 2 (concat (take k ?pd)) = 0"
  proof (intro allI impI)
    fix k :: nat
    assume "1 \<le> k \<and> k \<le> length ?pd"
    then consider "k = 1" | "k = 2" | "k = 3"
      by (auto simp: le_Suc_eq)
    then show "flat_weight (concat (take k ?pd)) \<noteq> 0 \<or> flat_sum 2 (concat (take k ?pd)) = 0"
      by cases (simp_all add: flat_weight_def particle_weight_def flow_particle_def)
  qed
  have nonzero: "flat_weight (concat ?pd) \<noteq> 0"
    unfolding total by simp
  from integrated_flow_flat_average [OF ready running nonzero]
  obtain v where v: "integrated_flow 2 ?pd = Inr v"
    and "to_np v = c_fin (flat_sum 2 (concat ?pd) / complex_of_real (flat_weight (concat ?pd)))"
    by blast
  then have "to_np v = c_fin (1 / 3)"
    unfolding sum total by simp
  with v ready total show ?thesis
    by simp
qed

text \<open>
  C1 as stated fails on a particle at rest in the transverse plane: its momentum components
  are set and the total weight is 1, yet the result is NaN and not the flat average.
\<close>

theorem integrated_flow_zero_pt_counterexample:
  "momentum_set (flow_particle 0 0 (Some 1))
   \<and> flat_weight (concat [[flow_particle 0 0 (Some 1)]]) \<noteq> 0
   \<and> integrated_flow 2 [[flow_particle 0 0 (Some 1)]] = Inr (NpC c_nan)
   \<and> to_np (NpC c_nan) \<noteq>
       c_fin (flat_sum 2 (concat [[flow_particle 0 0 (Some 1)]])
              / complex_of_real (flat_weight (concat [[flow_particle 0 0 (Some 1)]])))"
proof -
  have "integrated_flow 2 [[flow_particle 0 0 (Some 1)]] = Inr (NpC c_nan)"
    by (simp add: integrated_flow_def flow_particle_def empty_particle_def flow_weight_def
        weight_def pt_abs_def phi_def px_def py_def flow_term_def c_fin_def c_nan_def)
  moreover have "flat_weight (concat [[flow_particle 0 0 (Some 1)]]) \<noteq> 0"
    by (simp add: flat_weight_def particle_weight_def flow_particle_def)
  moreover have "momentum_set (flow_particle 0 0 (Some 1))"
    by (simp add: momentum_set_def flow_particle_def)
  ultimately show ?thesis
    by simp
qed

text \<open>
  Two more inputs on which the code leaves the flat average, not covered by the theorem of
  C1: a particle whose weight is unset makes \<^verbatim>\<open>integrated_flow\<close> raise, since the property
  \<^verbatim>\<open>weight\<close> raises before the default of 1 is reached; and an event after which the running
  weight is zero discards the flow accumulated so far.
\<close>

lemma integrated_flow_unset_weight_raises:
  "integrated_flow 2 [[flow_particle 1 0 None]] = Inl (ValueError ''weight not set'')"
  by (simp add: integrated_flow_def flow_particle_def empty_particle_def flow_weight_def weight_def)

lemma integrated_flow_running_zero_discards:
  "integrated_flow 2
     [[flow_particle 1 0 (Some 1), flow_particle 0 1 (Some (- 1))], [flow_particle 1 0 (Some 1)]]
   = Inr (NpC (c_fin 1))
   \<and> flat_sum 2 [flow_particle 1 0 (Some 1), flow_particle 0 1 (Some (- 1)), flow_particle 1 0 (Some 1)]
       / complex_of_real (flat_weight
           [flow_particle 1 0 (Some 1), flow_particle 0 1 (Some (- 1)), flow_particle 1 0 (Some 1)]) = 3"
  by (simp add: integrated_flow_def flow_particle_def empty_particle_def flow_weight_def weight_def
      pt_abs_def phi_def px_def py_def flow_term_def c_fin_def atan2_def
      flat_sum_def flat_weight_def particle_term_def particle_weight_def particle_phi_def)

text \<open>
  Claim C2 fails on the code. When the weights of an ensemble add up to zero, and in
  particular when the ensemble has no particle, \<^verbatim>\<open>integrated_flow\<close> does not return the
  complex zero: the division \<^verbatim>\<open>flow_event_average /= number_particles\<close> is made without a
  test, on a Python complex number, and raises \<^verbatim>\<open>ZeroDivisionError\<close>.
\<close>

theorem integrated_flow_zero_weight_raises:
  assumes "\<forall>p\<in>set (concat particle_data). attributes_set p"
    and "flat_weight (concat particle_data) = 0"
  shows "integrated_flow n particle_data = Inl (ZeroDivisionError ''complex division by zero'')"
proof -
  from integrated_events_total [OF assms(1), of n "PyC 0" 0] assms(2)
  obtain fea where fea: "integrated_events n particle_data (PyC 0, 0) = Inr (fea, 0)"
    by auto
  from integrated_events_zero_total [OF fea] have "fea = PyC 0"
    by simp
  then show ?thesis
    by (simp add: integrated_flow_def fea)
qed

text \<open>
  C2, the failing inputs: the empty ensemble, an ensemble of two empty events, and one event
  whose two weights cancel.
\<close>

theorem integrated_flow_zero_weight_raises_witness:
  "integrated_flow 2 [] = Inl (ZeroDivisionError ''complex division by zero'')
   \<and> integrated_flow 2 [[], []] = Inl (ZeroDivisionError ''complex division by zero'')
   \<and> integrated_flow 2 [[flow_particle 1 0 (Some 1), flow_particle 0 1 (Some (- 1))]]
       = Inl (ZeroDivisionError ''complex division by zero'')"
proof -
  let ?pd = "[[flow_particle 1 0 (Some 1), flow_particle 0 1 (Some (- 1))]]"
  have set: "\<forall>p\<in>set (concat ?pd). attributes_set p"
    by (simp add: attributes_set_def flow_particle_def)
  have zero: "flat_weight (concat ?pd) = 0"
    by (simp add: flat_weight_def particle_weight_def flow_particle_def)
  show ?thesis
    using integrated_flow_zero_weight_raises [of "[]" 2]
      integrated_flow_zero_weight_raises [of "[[], []]" 2]
      integrated_flow_zero_weight_raises [OF set zero, of 2]
    by simp
qed

subsection \<open>A particle of zero transverse momentum\<close>

lemma c9_term: "0 < n \<Longrightarrow> flow_term n w 0 ph = c_nan"
  by (simp add: flow_term_def c_fin_def c_nan_def)

lemma flow_event_loop_nan:
  "flow_event_loop n ps (NpC c_nan, np) = Inr (fe', np') \<Longrightarrow> fe' = NpC c_nan"
proof (induction ps arbitrary: np)
  case Nil
  then show ?case by simp
next
  case (Cons p ps)
  then show ?case
    by (auto simp: bind_e_def split: sum.splits)
qed

lemma zero_pt_step:
  assumes "0 < n" "px_attr p = Some 0" "py_attr p = Some 0"
    and "flow_event_loop n (p # ps) (fe, np) = Inr r"
  shows "\<exists>w. weight_attr p = Some w \<and> flow_event_loop n ps (NpC c_nan, np + w) = Inr r"
proof (cases "weight_attr p")
  case None
  with assms(4) show ?thesis
    by (simp add: flow_weight_def weight_def)
next
  case (Some w)
  have "pt_abs p = Inr 0" "phi p = Inr 0"
    by (simp_all add: pt_abs_def phi_def px_def py_def assms)
  with assms(1,4) Some show ?thesis
    by (simp add: flow_weight_def weight_def c9_term)
qed

lemma zero_pt_event:
  assumes "0 < n" "p \<in> set event" "px_attr p = Some 0" "py_attr p = Some 0"
    and "flow_event_loop n event (fe, np) = Inr (fe', np')"
  shows "fe' = NpC c_nan"
  using assms(2,5)
proof (induction event arbitrary: fe np)
  case Nil
  then show ?case by simp
next
  case (Cons q qs)
  show ?case
  proof (cases "q = p")
    case True
    from zero_pt_step [OF assms(1) assms(3,4), of qs fe np "(fe', np')"] Cons.prems(2) True
    obtain w where "flow_event_loop n qs (NpC c_nan, np + w) = Inr (fe', np')"
      by blast
    then show ?thesis by (rule flow_event_loop_nan)
  next
    case False
    with Cons.prems(1) have "p \<in> set qs" by simp
    from Cons.prems(2) obtain s where "flow_event_loop n qs s = Inr (fe', np')"
      by (auto simp: bind_e_def split: sum.splits)
    then show ?thesis
      using Cons.IH [OF \<open>p \<in> set qs\<close>, of "fst s" "snd s"] by simp
  qed
qed

lemma pt_abs_zero:
  assumes "pt_abs p = Inr 0"
  shows "px_attr p = Some 0 \<and> py_attr p = Some 0"
proof -
  from assms obtain a b where ab: "px_attr p = Some a" "py_attr p = Some b"
    by (cases "px_attr p"; cases "py_attr p") (simp_all add: pt_abs_def px_def py_def)
  with assms have "sqrt (a\<^sup>2 + b\<^sup>2) = 0"
    by (simp add: pt_abs_def px_def py_def)
  then have "a = 0 \<and> b = 0"
    by (simp add: sum_power2_eq_zero_iff)
  with ab show ?thesis by simp
qed

lemma bin_events_loop_nan:
  "bin_events_loop n bin (NpC c_nan, np) = Inr (fea', np') \<Longrightarrow> fea' = NpC c_nan"
proof (induction bin arbitrary: np)
  case Nil
  then show ?case by simp
next
  case (Cons ev evs)
  then show ?case
    by (auto simp: bind_e_def split: sum.splits)
qed

lemma zero_pt_bin:
  assumes "0 < n" "p \<in> set event" "px_attr p = Some 0" "py_attr p = Some 0" "event \<in> set bin"
    and "bin_events_loop n bin (fea, np) = Inr (fea', np')"
  shows "fea' = NpC c_nan"
  using assms(5,6)
proof (induction bin arbitrary: fea np)
  case Nil
  then show ?case by simp
next
  case (Cons ev evs)
  from Cons.prems(2) obtain fe np1 where
    fe: "flow_event_loop n ev (PyC 0, np) = Inr (fe, np1)"
    and rest: "bin_events_loop n evs (py_add fea fe, np1) = Inr (fea', np')"
    by (auto simp: bind_e_def split: sum.splits)
  show ?case
  proof (cases "ev = event")
    case True
    with fe have "fe = NpC c_nan"
      using zero_pt_event [OF assms(1-4)] by blast
    with rest show ?thesis
      by (simp add: bin_events_loop_nan)
  next
    case False
    with Cons.prems(1) have "event \<in> set evs" by simp
    from Cons.IH [OF this rest] show ?thesis .
  qed
qed

text \<open>
  Claim C9. A particle whose transverse momentum is exactly zero contributes NaN: its term
  \<open>w * (pt^n * exp(i*n*phi) / pt^n)\<close> is \<open>0 / 0\<close> for every weight and every angle, and the
  flow sum of every event that holds such a particle is NaN, in the loop of
  \<^verbatim>\<open>integrated_flow\<close> and in the loop over the events of a bin of
  \<^verbatim>\<open>__differential_flow_calculation\<close>. It is not counted as a unit vector of weight 1.
\<close>

theorem zero_pt_contributes_nan:
  assumes "0 < n" and "pt_abs p = Inr 0" and "p \<in> set event"
  shows "(\<forall>w ph. flow_term n w 0 ph = c_nan)
       \<and> (\<forall>fe np fe' np'. flow_event_loop n event (fe, np) = Inr (fe', np') \<longrightarrow> fe' = NpC c_nan)
       \<and> (\<forall>bin fea np fea' np'. event \<in> set bin \<longrightarrow>
            bin_events_loop n bin (fea, np) = Inr (fea', np') \<longrightarrow> fea' = NpC c_nan)"
proof -
  from pt_abs_zero [OF assms(2)] have z: "px_attr p = Some 0" "py_attr p = Some 0"
    by simp_all
  show ?thesis
    using c9_term [OF assms(1)] zero_pt_event [OF assms(1,3) z] zero_pt_bin [OF assms(1,3) z]
    by blast
qed

text \<open>
  C9, an instance: an event of a moving particle and a particle at rest, and a bin that
  holds this event.
\<close>

theorem zero_pt_contributes_nan_witness:
  "pt_abs (flow_particle 0 0 (Some 1)) = Inr 0
   \<and> flow_term 2 1 0 0 = c_nan
   \<and> flow_event_loop 2 [flow_particle 1 0 (Some 1), flow_particle 0 0 (Some 1)] (PyC 0, 0)
       = Inr (NpC c_nan, 2)
   \<and> bin_events_loop 2 [[], [flow_particle 1 0 (Some 1), flow_particle 0 0 (Some 1)]] (PyC 0, 0)
       = Inr (NpC c_nan, 2)"
proof -
  let ?ev = "[flow_particle 1 0 (Some 1), flow_particle 0 0 (Some 1)]"
  have pt: "pt_abs (flow_particle 0 0 (Some 1)) = Inr 0"
    by (simp add: pt_abs_def px_def py_def flow_particle_def)
  have mem: "flow_particle 0 0 (Some 1) \<in> set ?ev"
    by simp
  have "\<forall>p\<in>set ?ev. attributes_set p"
    by (simp add: attributes_set_def flow_particle_def)
  from flow_event_loop_total [OF this, of 2 "PyC 0" 0]
  obtain fe where fe: "flow_event_loop 2 ?ev (PyC 0, 0) = Inr (fe, 2)"
    by (auto simp: flat_weight_def particle_weight_def flow_particle_def)
  have all: "(\<forall>w ph. flow_term 2 w 0 ph = c_nan)
       \<and> (\<forall>fe np fe' np'. flow_event_loop 2 ?ev (fe, np) = Inr (fe', np') \<longrightarrow> fe' = NpC c_nan)
       \<and> (\<forall>bin fea np fea' np'. ?ev \<in> set bin \<longrightarrow>
            bin_events_loop 2 bin (fea, np) = Inr (fea', np') \<longrightarrow> fea' = NpC c_nan)"
    by (rule zero_pt_contributes_nan [OF _ pt mem]) simp
  then have "fe = NpC c_nan"
    using fe by blast
  with fe pt all show ?thesis
    by simp
qed

subsection \<open>The bins of the differential flow\<close>

lemma mapM_e_map:
  "\<forall>x\<in>set xs. f x = Inr (g x) \<Longrightarrow> mapM_e f xs = Inr (map g xs)"
  by (induction xs) simp_all

lemma observable_observed:
  "\<exists>v. observable var p = Inr v \<Longrightarrow> observable var p = Inr (observed var p)"
  by (auto simp: observed_def)

lemma particles_event_filter:
  assumes "\<forall>p\<in>set ps. \<exists>v. observable var p = Inr v"
  shows "particles_event var lo hi ps =
         Inr (filter (\<lambda>p. x_ge (observed var p) lo \<and> x_lt (observed var p) hi) ps)"
  using assms
proof (induction ps)
  case Nil
  then show ?case by simp
next
  case (Cons p ps)
  then have "observable var p = Inr (observed var p)"
    by (simp add: observable_observed)
  with Cons show ?case by simp
qed

lemma particles_bin_filter:
  assumes "\<forall>p\<in>set (concat particle_data). \<exists>v. observable var p = Inr v"
  shows "particles_bin var bins particle_data =
         Inr (map (\<lambda>k. map (filter (\<lambda>p. in_bin bins k (observed var p))) particle_data)
                [0..<length bins - 1])"
proof -
  have inner: "mapM_e (particles_event var lo hi) particle_data =
      Inr (map (filter (\<lambda>p. x_ge (observed var p) lo \<and> x_lt (observed var p) hi)) particle_data)"
    for lo hi
  proof (rule mapM_e_map, rule ballI)
    fix ev assume "ev \<in> set particle_data"
    with assms have "\<forall>p\<in>set ev. \<exists>v. observable var p = Inr v"
      by auto
    then show "particles_event var lo hi ev =
      Inr (filter (\<lambda>p. x_ge (observed var p) lo \<and> x_lt (observed var p) hi) ev)"
      by (rule particles_event_filter)
  qed
  show ?thesis
    unfolding particles_bin_def
    by (rule mapM_e_map) (simp add: inner in_bin_def)
qed

lemma sorted_nth_le:
  fixes bins :: "real list"
  assumes "sorted_wrt (<) bins" "i \<le> j" "j < length bins"
  shows "bins ! i \<le> bins ! j"
proof (cases "i = j")
  case True
  then show ?thesis by simp
next
  case False
  with assms(2) have "i < j" by simp
  with assms(1,3) have "bins ! i < bins ! j"
    by (simp add: sorted_wrt_iff_nth_less)
  then show ?thesis by simp
qed

lemma bin_exists:
  fixes bins :: "real list"
  assumes "sorted_wrt (<) bins" "bins \<noteq> []" "bins ! 0 \<le> a" "a < last bins"
  shows "\<exists>k. k < length bins - 1 \<and> bins ! k \<le> a \<and> a < bins ! (k + 1)"
  using assms
proof (induction bins)
  case Nil
  then show ?case by simp
next
  case (Cons b bs)
  show ?case
  proof (cases bs)
    case Nil
    with Cons.prems show ?thesis by auto
  next
    case (Cons c cs)
    show ?thesis
    proof (cases "a < c")
      case True
      with Cons.prems(3) Cons show ?thesis
        by (intro exI [of _ 0]) simp
    next
      case False
      have "sorted_wrt (<) bs" "bs \<noteq> []" "bs ! 0 \<le> a" "a < last bs"
        using Cons.prems False Cons by simp_all
      from Cons.IH [OF this] obtain k where
        "k < length bs - 1" "bs ! k \<le> a" "a < bs ! (k + 1)"
        by blast
      then show ?thesis
        by (intro exI [of _ "Suc k"]) (simp add: Cons)
    qed
  qed
qed

lemma bin_unique:
  fixes bins :: "real list"
  assumes "sorted_wrt (<) bins" "k < length bins - 1" "k' < length bins - 1"
    and "bins ! k \<le> a" "a < bins ! (k + 1)" "bins ! k' \<le> a" "a < bins ! (k' + 1)"
  shows "k = k'"
proof (rule ccontr)
  assume "k \<noteq> k'"
  then consider "k < k'" | "k' < k" by linarith
  then show False
  proof cases
    case 1
    have "bins ! (k + 1) \<le> bins ! k'"
      by (rule sorted_nth_le [OF assms(1)]) (use 1 assms(3) in simp_all)
    with assms(5,6) show False by simp
  next
    case 2
    have "bins ! (k' + 1) \<le> bins ! k"
      by (rule sorted_nth_le [OF assms(1)]) (use 2 assms(2) in simp_all)
    with assms(4,7) show False by simp
  qed
qed

lemma in_bin_Fin: "in_bin bins k v \<longleftrightarrow> (\<exists>a. v = Fin a \<and> bins ! k \<le> a \<and> a < bins ! (k + 1))"
  by (cases v) (auto simp: in_bin_def)

lemma in_range_Fin:
  "x_ge v lo \<and> x_lt v hi \<longleftrightarrow> (\<exists>a. v = Fin a \<and> lo \<le> a \<and> a < hi)"
  by (cases v) auto

lemma in_bin_inside:
  assumes "sorted_wrt (<) bins" "k < length bins - 1" "in_bin bins k v"
  shows "x_ge v (bins ! 0) \<and> x_lt v (last bins)"
proof -
  from assms(3) obtain a where a: "v = Fin a" "bins ! k \<le> a" "a < bins ! (k + 1)"
    by (auto simp: in_bin_Fin)
  have "bins ! 0 \<le> bins ! k"
    by (rule sorted_nth_le [OF assms(1)]) (use assms(2) in simp_all)
  moreover have "bins ! (k + 1) \<le> bins ! (length bins - 1)"
    by (rule sorted_nth_le [OF assms(1)]) (use assms(2) in simp_all)
  moreover have "last bins = bins ! (length bins - 1)"
    using assms(2) by (intro last_conv_nth) auto
  ultimately show ?thesis
    using a by simp
qed

lemma pt_abs_axis:
  "pt_abs (flow_particle a 0 w) = Inr \<bar>a\<bar>" "pt_abs (flow_particle 0 b w) = Inr \<bar>b\<bar>"
  by (simp_all add: pt_abs_def px_def py_def flow_particle_def)

lemma observed_pt_axis:
  "observed ''pt'' (flow_particle a 0 w) = Fin \<bar>a\<bar>" "observed ''pt'' (flow_particle 0 b w) = Fin \<bar>b\<bar>"
  by (simp_all add: observed_def observable_def pt_abs_axis)

text \<open>
  Claim C4. For strictly increasing \<^verbatim>\<open>bins\<close>, and when the chosen observable of every
  particle evaluates, the binning loops of \<^verbatim>\<open>differential_flow\<close> build one list of events
  per interval, \<open>len(bins) - 1\<close> of them; the list of bin \<open>k\<close> has one entry per event, in
  the order of the events, and that entry holds, in their order, exactly the particles of
  the event whose value \<open>val\<close> satisfies \<open>bins[k] \<le> val < bins[k+1]\<close>. A value in
  \<open>[bins[0], bins[-1])\<close> lies in exactly one bin, and a value in some bin lies in
  \<open>[bins[0], bins[-1])\<close>, so that a value below \<open>bins[0]\<close> or not below \<open>bins[-1]\<close> (or a
  NaN) lies in none.
\<close>

theorem differential_flow_bin_partition:
  assumes "sorted_wrt (<) bins"
    and "\<forall>p\<in>set (concat particle_data). \<exists>v. observable var p = Inr v"
  shows "\<exists>pb. particles_bin var bins particle_data = Inr pb
           \<and> length pb = length bins - 1
           \<and> (\<forall>k<length bins - 1. length (pb ! k) = length particle_data
                \<and> (\<forall>e<length particle_data.
                     pb ! k ! e = filter (\<lambda>p. in_bin bins k (observed var p)) (particle_data ! e)))
           \<and> (\<forall>v. bins \<noteq> [] \<and> x_ge v (bins ! 0) \<and> x_lt v (last bins)
                \<longrightarrow> (\<exists>!k. k < length bins - 1 \<and> in_bin bins k v))
           \<and> (\<forall>v k. k < length bins - 1 \<and> in_bin bins k v
                \<longrightarrow> x_ge v (bins ! 0) \<and> x_lt v (last bins))"
proof -
  let ?pb = "map (\<lambda>k. map (filter (\<lambda>p. in_bin bins k (observed var p))) particle_data)
                [0..<length bins - 1]"
  have pb: "particles_bin var bins particle_data = Inr ?pb"
    by (rule particles_bin_filter [OF assms(2)])
  have shape: "\<forall>k<length bins - 1. length (?pb ! k) = length particle_data
      \<and> (\<forall>e<length particle_data.
           ?pb ! k ! e = filter (\<lambda>p. in_bin bins k (observed var p)) (particle_data ! e))"
    by simp
  have len: "length ?pb = length bins - 1"
    by simp
  have one: "\<forall>v. bins \<noteq> [] \<and> x_ge v (bins ! 0) \<and> x_lt v (last bins)
      \<longrightarrow> (\<exists>!k. k < length bins - 1 \<and> in_bin bins k v)"
  proof (intro allI impI)
    fix v
    assume range: "bins \<noteq> [] \<and> x_ge v (bins ! 0) \<and> x_lt v (last bins)"
    then obtain a where a: "v = Fin a" "bins ! 0 \<le> a" "a < last bins"
      by (auto simp: in_range_Fin)
    from bin_exists [OF assms(1) _ a(2,3)] range obtain k where
      k: "k < length bins - 1" "bins ! k \<le> a" "a < bins ! (k + 1)"
      by blast
    show "\<exists>!k. k < length bins - 1 \<and> in_bin bins k v"
    proof (rule ex1I [of _ k])
      show "k < length bins - 1 \<and> in_bin bins k v"
        using k a(1) by (simp add: in_bin_Fin)
    next
      fix k' assume "k' < length bins - 1 \<and> in_bin bins k' v"
      then show "k' = k"
        using bin_unique [OF assms(1), of k' k a] k a(1) by (simp add: in_bin_Fin)
    qed
  qed
  have none: "\<forall>v k. k < length bins - 1 \<and> in_bin bins k v
      \<longrightarrow> x_ge v (bins ! 0) \<and> x_lt v (last bins)"
    using in_bin_inside [OF assms(1)] by blast
  show ?thesis
  proof (intro exI [of _ ?pb] conjI)
    show "particles_bin var bins particle_data = Inr ?pb" by (rule pb)
    show "length ?pb = length bins - 1" by (rule len)
    show "\<forall>k<length bins - 1. length (?pb ! k) = length particle_data
      \<and> (\<forall>e<length particle_data.
           ?pb ! k ! e = filter (\<lambda>p. in_bin bins k (observed var p)) (particle_data ! e))"
      by (rule shape)
    show "\<forall>v. bins \<noteq> [] \<and> x_ge v (bins ! 0) \<and> x_lt v (last bins)
      \<longrightarrow> (\<exists>!k. k < length bins - 1 \<and> in_bin bins k v)"
      by (rule one)
    show "\<forall>v k. k < length bins - 1 \<and> in_bin bins k v
      \<longrightarrow> x_ge v (bins ! 0) \<and> x_lt v (last bins)"
      by (rule none)
  qed
qed

text \<open>
  C4, an instance: the boundaries 0, 2, 4 and two events. The transverse momenta 1, 3 and 5
  of the first event go to the first bin, the second bin and no bin; the transverse
  momentum 2 of the second event, on a boundary, goes to the second bin.
\<close>

theorem differential_flow_bin_partition_witness:
  "\<exists>pb. particles_bin ''pt'' [0, 2, 4]
          [[flow_particle 1 0 None, flow_particle 3 0 None, flow_particle 5 0 None],
           [flow_particle 0 2 None]] = Inr pb
     \<and> length pb = 2
     \<and> pb ! 0 ! 0 = [flow_particle 1 0 None] \<and> pb ! 1 ! 0 = [flow_particle 3 0 None]
     \<and> pb ! 0 ! 1 = [] \<and> pb ! 1 ! 1 = [flow_particle 0 2 None]"
proof -
  let ?bins = "[0, 2, 4] :: real list"
  let ?pd = "[[flow_particle 1 0 None, flow_particle 3 0 None, flow_particle 5 0 None],
              [flow_particle 0 2 None]]"
  have sorted: "sorted_wrt (<) ?bins"
    by simp
  have evaluates: "\<forall>p\<in>set (concat ?pd). \<exists>v. observable ''pt'' p = Inr v"
    by (simp add: observable_def pt_abs_axis)
  from differential_flow_bin_partition [OF sorted evaluates]
  obtain pb where pb: "particles_bin ''pt'' ?bins ?pd = Inr pb" "length pb = length ?bins - 1"
    and sel: "\<forall>k<length ?bins - 1. length (pb ! k) = length ?pd
       \<and> (\<forall>e<length ?pd. pb ! k ! e = filter (\<lambda>p. in_bin ?bins k (observed ''pt'' p)) (?pd ! e))"
    by blast
  have "pb ! 0 ! 0 = filter (\<lambda>p. in_bin ?bins 0 (observed ''pt'' p)) (?pd ! 0)"
    and "pb ! 1 ! 0 = filter (\<lambda>p. in_bin ?bins 1 (observed ''pt'' p)) (?pd ! 0)"
    and "pb ! 0 ! 1 = filter (\<lambda>p. in_bin ?bins 0 (observed ''pt'' p)) (?pd ! 1)"
    and "pb ! 1 ! 1 = filter (\<lambda>p. in_bin ?bins 1 (observed ''pt'' p)) (?pd ! 1)"
    using sel by simp_all
  then have "pb ! 0 ! 0 = [flow_particle 1 0 None]" "pb ! 1 ! 0 = [flow_particle 3 0 None]"
    "pb ! 0 ! 1 = []" "pb ! 1 ! 1 = [flow_particle 0 2 None]"
    by (simp_all add: in_bin_def observed_pt_axis)
  with pb show ?thesis
    by simp
qed

text \<open>
  Claim C8, as the code has it. The only check made on \<^verbatim>\<open>bins\<close> is the one of its type:
  an argument that is neither a list nor a numpy array raises \<^verbatim>\<open>TypeError\<close> before any
  particle is read. Neither the number of boundaries nor their order is checked: with fewer
  than two boundaries the result is the empty list, and an interval whose upper boundary is
  not above its lower one selects no particle.
\<close>

lemma particles_event_empty_bin:
  assumes "hi \<le> lo" and "particles_event var lo hi event = Inr selected"
  shows "selected = []"
  using assms(2)
proof (induction event arbitrary: selected)
  case Nil
  then show ?case by simp
next
  case (Cons p ps)
  from Cons.prems obtain val rest where
    val: "observable var p = Inr val" and rest: "particles_event var lo hi ps = Inr rest"
    and sel: "selected = (if x_ge val lo \<and> x_lt val hi then p # rest else rest)"
    by (auto simp: bind_e_def split: sum.splits)
  have "\<not> (x_ge val lo \<and> x_lt val hi)"
    using assms(1) by (cases val) auto
  with sel Cons.IH [OF rest] show ?case
    by simp
qed

theorem differential_flow_bins_unchecked:
  "differential_flow n particle_data BinsOther flow_as_function_of
     = Inl (TypeError ''bins has to be list or np.ndarray'')
   \<and> (bins \<noteq> BinsOther \<and> length (bins_values bins) < 2
        \<and> var \<in> set [''pt'', ''rapidity'', ''pseudorapidity''] \<longrightarrow>
      differential_flow n particle_data bins (Str var) = Inr [])
   \<and> (hi \<le> lo \<and> particles_event var lo hi event = Inr selected \<longrightarrow> selected = [])"
proof (intro conjI impI)
  show "differential_flow n particle_data BinsOther flow_as_function_of
     = Inl (TypeError ''bins has to be list or np.ndarray'')"
    by (simp add: differential_flow_def)
next
  assume a: "bins \<noteq> BinsOther \<and> length (bins_values bins) < 2
        \<and> var \<in> set [''pt'', ''rapidity'', ''pseudorapidity'']"
  then have "[0..<length (bins_values bins) - 1] = []"
    by simp
  then have "particles_bin var (bins_values bins) particle_data = Inr []"
    by (simp add: particles_bin_def)
  with a show "differential_flow n particle_data bins (Str var) = Inr []"
    by (simp add: differential_flow_def)
next
  assume "hi \<le> lo \<and> particles_event var lo hi event = Inr selected"
  then show "selected = []"
    using particles_event_empty_bin by blast
qed

text \<open>C8, an instance: an array of one boundary, and the interval from 2 down to 1.\<close>

theorem differential_flow_bins_unchecked_witness:
  "differential_flow 2 [[flow_particle 1 0 (Some 1)]] BinsOther (Str ''pt'')
     = Inl (TypeError ''bins has to be list or np.ndarray'')
   \<and> differential_flow 2 [[flow_particle 1 0 (Some 1)]] (BinsArray [1]) (Str ''pt'') = Inr []
   \<and> particles_event ''pt'' 2 1 [flow_particle 1 0 (Some 1)] = Inr []"
proof -
  have sel: "\<exists>selected. particles_event ''pt'' 2 1 [flow_particle 1 0 (Some 1)] = Inr selected"
    by (simp add: observable_def pt_abs_axis)
  then obtain selected where
    s: "particles_event ''pt'' 2 1 [flow_particle 1 0 (Some 1)] = Inr selected" ..
  from differential_flow_bins_unchecked
    [where n = 2 and particle_data = "[[flow_particle 1 0 (Some 1)]]"
       and flow_as_function_of = "Str ''pt''" and bins = "BinsArray [1]" and var = "''pt''"
       and hi = 1 and lo = 2 and event = "[flow_particle 1 0 (Some 1)]"
       and selected = selected] s
  show ?thesis
    by simp
qed

text \<open>
  C8 as stated fails: no boundary, one boundary and two decreasing boundaries raise nothing;
  the result is the empty list, and for the decreasing boundaries one bin of zero flow.
\<close>

theorem differential_flow_bins_counterexample:
  "differential_flow 2 [[flow_particle 1 0 (Some 1)]] (BinsList []) (Str ''pt'') = Inr []
   \<and> differential_flow 2 [[flow_particle 1 0 (Some 1)]] (BinsList [1]) (Str ''pt'') = Inr []
   \<and> differential_flow 2 [[flow_particle 1 0 (Some 1)]] (BinsList [2, 1]) (Str ''pt'')
       = Inr [PyC 0]"
  by (simp add: differential_flow_def particles_bin_def observable_def pt_abs_axis
      differential_bin_def)

subsection \<open>The length of the array that makes a particle\<close>

lemma setattr_pdg_valid [simp]: "pdg_valid_attr (setattr a v p) = pdg_valid_attr p"
  by (simp add: setattr_def)

lemma assign_attributes_pdg_valid [simp]:
  "pdg_valid_attr (assign_attributes cols arr p) = pdg_valid_attr p"
  by (induction cols arr p rule: assign_attributes.induct) simp_all

lemma validate_pdg_Inr:
  assumes "validate_pdg L p0 = Inr (p, ws)"
  shows "\<exists>c. pdg_attr p0 = Some c \<and> p = p0\<lparr>pdg_valid_attr := Some (is_valid (L c))\<rparr>
           \<and> ws = (if \<not> is_valid (L c) then [InvalidPDGWarning (Some c)] else [])"
  using assms by (auto simp: validate_pdg_def Let_def split: option.splits)

lemma validate_pdg_Some:
  "pdg_attr p = Some c \<Longrightarrow> \<exists>r. validate_pdg L p = Inr r"
  by (simp add: validate_pdg_def Let_def)

lemma assign_attributes_other:
  assumes "\<And>b v q. b \<noteq> a \<Longrightarrow> sel (setattr b v q) = sel q"
    and "a \<notin> fst ` set cols"
  shows "sel (assign_attributes cols arr p) = sel p"
  using assms(2)
proof (induction cols arr p rule: assign_attributes.induct)
  case (1 arr p)
  then show ?case by simp
next
  case (2 b i rest arr p)
  then have "b \<noteq> a" and "a \<notin> fst ` set rest"
    by auto
  with 2 show ?case
    by (simp add: assms(1))
qed

lemma assign_attributes_column:
  assumes "\<And>v q. sel (setattr a v q) = v"
    and "\<And>b v q. b \<noteq> a \<Longrightarrow> sel (setattr b v q) = sel q"
    and "distinct (map fst cols)" and "(a, i) \<in> set cols"
  shows "sel (assign_attributes cols arr p) =
         (if length arr < i + 1 then None else Some (arr ! i))"
  using assms(3,4)
proof (induction cols arr p rule: assign_attributes.induct)
  case (1 arr p)
  then show ?case by simp
next
  case (2 b j rest arr p)
  show ?case
  proof (cases "b = a")
    case True
    with "2.prems" have "j = i" and "a \<notin> fst ` set rest"
      by (auto simp: rev_image_eqI)
    then show ?thesis
      using True assign_attributes_other [of a sel rest arr, OF assms(2)]
      by (simp add: assms(1))
  next
    case False
    with "2.prems" have "distinct (map fst rest)" "(a, i) \<in> set rest"
      by auto
    with "2.IH" show ?thesis
      by simp
  qed
qed

lemma setattr_pdg: "pdg_attr (setattr ''pdg_'' v q) = v"
  by (simp add: setattr_def)

lemma setattr_pdg_other: "b \<noteq> ''pdg_'' \<Longrightarrow> pdg_attr (setattr b v q) = pdg_attr q"
  by (simp add: setattr_def)

lemma setattr_baryon: "baryon_number_attr (setattr ''baryon_number_'' v q) = v"
  by (simp add: setattr_def)

lemma setattr_baryon_other:
  "b \<noteq> ''baryon_number_'' \<Longrightarrow> baryon_number_attr (setattr b v q) = baryon_number_attr q"
  by (simp add: setattr_def)

lemma setattr_strangeness: "strangeness_attr (setattr ''strangeness_'' v q) = v"
  by (simp add: setattr_def)

lemma setattr_strangeness_other:
  "b \<noteq> ''strangeness_'' \<Longrightarrow> strangeness_attr (setattr b v q) = strangeness_attr q"
  by (simp add: setattr_def)

lemma setattr_charge: "charge_attr (setattr ''charge_'' v q) = v"
  by (simp add: setattr_def)

lemma setattr_charge_other:
  "b \<noteq> ''charge_'' \<Longrightarrow> charge_attr (setattr b v q) = charge_attr q"
  by (simp add: setattr_def)

lemma pdg_column:
  assumes "distinct (map fst cols)" "(''pdg_'', i) \<in> set cols" "i < length arr"
  shows "pdg_attr (assign_attributes cols arr p) = Some (arr ! i)"
proof -
  have "pdg_attr (assign_attributes cols arr p) =
      (if length arr < i + 1 then None else Some (arr ! i))"
  proof (rule assign_attributes_column [where a = "''pdg_''"])
    show "pdg_attr (setattr ''pdg_'' v q) = v" for v q
      by (rule setattr_pdg)
    show "b \<noteq> ''pdg_'' \<Longrightarrow> pdg_attr (setattr b v q) = pdg_attr q" for b v q
      by (rule setattr_pdg_other)
    show "distinct (map fst cols)" by (rule assms(1))
    show "(''pdg_'', i) \<in> set cols" by (rule assms(2))
  qed
  with assms(3) show ?thesis
    by simp
qed

lemma baryon_column:
  assumes "distinct (map fst cols)" "(''baryon_number_'', i) \<in> set cols"
  shows "baryon_number_attr (assign_attributes cols arr p) =
         (if length arr < i + 1 then None else Some (arr ! i))"
proof (rule assign_attributes_column [where a = "''baryon_number_''"])
  show "baryon_number_attr (setattr ''baryon_number_'' v q) = v" for v q
    by (rule setattr_baryon)
  show "b \<noteq> ''baryon_number_'' \<Longrightarrow> baryon_number_attr (setattr b v q) = baryon_number_attr q"
    for b v q
    by (rule setattr_baryon_other)
  show "distinct (map fst cols)" by (rule assms(1))
  show "(''baryon_number_'', i) \<in> set cols" by (rule assms(2))
qed

lemma strangeness_column:
  assumes "distinct (map fst cols)" "(''strangeness_'', i) \<in> set cols"
  shows "strangeness_attr (assign_attributes cols arr p) =
         (if length arr < i + 1 then None else Some (arr ! i))"
proof (rule assign_attributes_column [where a = "''strangeness_''"])
  show "strangeness_attr (setattr ''strangeness_'' v q) = v" for v q
    by (rule setattr_strangeness)
  show "b \<noteq> ''strangeness_'' \<Longrightarrow> strangeness_attr (setattr b v q) = strangeness_attr q"
    for b v q
    by (rule setattr_strangeness_other)
  show "distinct (map fst cols)" by (rule assms(1))
  show "(''strangeness_'', i) \<in> set cols" by (rule assms(2))
qed

lemma charge_column:
  assumes "distinct (map fst cols)" "(''charge_'', i) \<in> set cols"
  shows "charge_attr (assign_attributes cols arr p) =
         (if length arr < i + 1 then None else Some (arr ! i))"
proof (rule assign_attributes_column [where a = "''charge_''"])
  show "charge_attr (setattr ''charge_'' v q) = v" for v q
    by (rule setattr_charge)
  show "b \<noteq> ''charge_'' \<Longrightarrow> charge_attr (setattr b v q) = charge_attr q" for b v q
    by (rule setattr_charge_other)
  show "distinct (map fst cols)" by (rule assms(1))
  show "(''charge_'', i) \<in> set cols" by (rule assms(2))
qed

lemma length_columns [simp]:
  "length oscar2013_columns = 12" "length extended_baryon_columns = 22"
  "length photons_columns = 21" "length jetscape_columns = 7"
  by (simp_all add: oscar2013_columns_def extended_columns_def extended_baryon_columns_def
      photons_columns_def jetscape_columns_def)

lemma distinct_oscar2013: "distinct (map fst oscar2013_columns)"
  by (simp add: oscar2013_columns_def)

lemma distinct_extended: "distinct (map fst extended_baryon_columns)"
  by (simp add: extended_baryon_columns_def oscar2013_columns_def extended_columns_def)

lemma distinct_photons: "distinct (map fst photons_columns)"
  by (simp add: photons_columns_def oscar2013_columns_def extended_columns_def)

lemma charge_in_columns:
  "(''charge_'', 11) \<in> set oscar2013_columns"
  "(''charge_'', 11) \<in> set extended_baryon_columns"
  "(''charge_'', 11) \<in> set photons_columns"
  by (simp_all add: oscar2013_columns_def extended_baryon_columns_def photons_columns_def)

lemma map_of_mapping:
  "map_of attribute_mapping ''Oscar2013'' = Some oscar2013_columns"
  "map_of attribute_mapping ''Oscar2013Extended'' = Some extended_baryon_columns"
  "map_of attribute_mapping ''Oscar2013Extended_IC'' = Some extended_baryon_columns"
  "map_of attribute_mapping ''Oscar2013Extended_Photons'' = Some photons_columns"
  "map_of attribute_mapping ''JETSCAPE'' = Some jetscape_columns"
  by (simp_all add: attribute_mapping_def)

lemma init_Oscar2013:
  "initialize_from_array L ''Oscar2013'' arr =
     (if length arr = 12
      then validate_pdg L (assign_attributes oscar2013_columns arr empty_particle)
      else Inl (ValueError ''The input file is corrupted!''))"
  by (simp add: initialize_from_array_def map_of_mapping)

lemma init_Extended:
  assumes "f = ''Oscar2013Extended'' \<or> f = ''Oscar2013Extended_IC''"
  shows "initialize_from_array L f arr =
     (if 20 \<le> length arr \<and> length arr \<le> 22
      then validate_pdg L (assign_attributes extended_baryon_columns arr empty_particle)
      else Inl (ValueError ''The input file is corrupted!''))"
  using assms by (auto simp: initialize_from_array_def map_of_mapping)

lemma init_Photons:
  "initialize_from_array L ''Oscar2013Extended_Photons'' arr =
     (if length arr = 21
      then validate_pdg L (assign_attributes photons_columns arr empty_particle)
      else Inl (ValueError ''The input file is corrupted!''))"
  by (simp add: initialize_from_array_def map_of_mapping)

lemma init_JETSCAPE_length:
  "length arr \<noteq> 7 \<Longrightarrow>
     initialize_from_array L ''JETSCAPE'' arr = Inl (ValueError ''The input file is corrupted!'')"
  by (simp add: initialize_from_array_def map_of_mapping)

lemma jetscape_assigned:
  "length arr = 7 \<Longrightarrow>
     assign_attributes jetscape_columns arr empty_particle =
       empty_particle\<lparr>ID_attr := Some (arr ! 0), pdg_attr := Some (arr ! 1),
         status_attr := Some (arr ! 2), E_attr := Some (arr ! 3), px_attr := Some (arr ! 4),
         py_attr := Some (arr ! 5), pz_attr := Some (arr ! 6)\<rparr>"
  by (simp add: jetscape_columns_def setattr_def)

lemma init_JETSCAPE:
  assumes "length arr = 7"
  shows "\<exists>p0. initialize_from_array L ''JETSCAPE'' arr = validate_pdg L p0
           \<and> pdg_attr p0 = Some (arr ! 1) \<and> charge_attr p0 = None"
proof -
  let ?p = "assign_attributes jetscape_columns arr empty_particle"
  have attrs: "E_attr ?p = Some (arr ! 3)" "px_attr ?p = Some (arr ! 4)"
    "py_attr ?p = Some (arr ! 5)" "pz_attr ?p = Some (arr ! 6)" "pdg_attr ?p = Some (arr ! 1)"
    "pdg_valid_attr ?p = None"
    unfolding jetscape_assigned [OF assms] by (simp_all add: empty_particle_def)
  have "\<exists>m. compute_mass_from_energy_momentum ?p = Inr m"
    by (simp add: compute_mass_from_energy_momentum_def E_def p_abs_def px_def py_def pz_def attrs)
  then obtain m where m: "compute_mass_from_energy_momentum ?p = Inr m" ..
  have c: "compute_charge_from_pdg L (?p\<lparr>mass_attr := Some m\<rparr>) = Inr None"
    by (simp add: compute_charge_from_pdg_def pdg_valid_true_def empty_particle_def)
  have "initialize_from_array L ''JETSCAPE'' arr =
      validate_pdg L (?p\<lparr>mass_attr := Some m, charge_attr := None\<rparr>)"
    using assms by (simp add: initialize_from_array_def map_of_mapping Let_def m c)
  then show ?thesis
    by (intro exI [of _ "?p\<lparr>mass_attr := Some m, charge_attr := None\<rparr>"]) (simp add: attrs)
qed

lemma accepted_length_simps:
  "accepted_length ''Oscar2013'' k \<longleftrightarrow> k = 12"
  "accepted_length ''Oscar2013Extended'' k \<longleftrightarrow> 20 \<le> k \<and> k \<le> 22"
  "accepted_length ''Oscar2013Extended_IC'' k \<longleftrightarrow> 20 \<le> k \<and> k \<le> 22"
  "accepted_length ''Oscar2013Extended_Photons'' k \<longleftrightarrow> k = 21"
  "accepted_length ''JETSCAPE'' k \<longleftrightarrow> k = 7"
  by (auto simp: accepted_length_def declared_columns_def)

lemma init_accepts:
  assumes "f \<in> set [''Oscar2013'', ''Oscar2013Extended'', ''Oscar2013Extended_IC'',
                      ''Oscar2013Extended_Photons'', ''JETSCAPE'']"
  shows "(accepted_length f (length arr) \<longrightarrow> (\<exists>r. initialize_from_array L f arr = Inr r))
       \<and> (\<not> accepted_length f (length arr) \<longrightarrow>
            initialize_from_array L f arr = Inl (ValueError ''The input file is corrupted!''))"
proof -
  from assms have "f = ''Oscar2013''
      \<or> (f = ''Oscar2013Extended'' \<or> f = ''Oscar2013Extended_IC'')
      \<or> f = ''Oscar2013Extended_Photons'' \<or> f = ''JETSCAPE''"
    by (simp only: list.set insert_iff empty_iff simp_thms disj_assoc)
  then consider (1) "f = ''Oscar2013''"
    | (2) "f = ''Oscar2013Extended'' \<or> f = ''Oscar2013Extended_IC''"
    | (3) "f = ''Oscar2013Extended_Photons''" | (4) "f = ''JETSCAPE''"
    by blast
  then show ?thesis
  proof cases
    case 1
    have "length arr = 12 \<Longrightarrow>
        \<exists>r. validate_pdg L (assign_attributes oscar2013_columns arr empty_particle) = Inr r"
      by (rule validate_pdg_Some [of _ "arr ! 9"], rule pdg_column [OF distinct_oscar2013])
         (simp_all add: oscar2013_columns_def)
    then show ?thesis
      by (auto simp: 1 accepted_length_simps init_Oscar2013)
  next
    case 2
    have "20 \<le> length arr \<and> length arr \<le> 22 \<Longrightarrow>
        \<exists>r. validate_pdg L (assign_attributes extended_baryon_columns arr empty_particle) = Inr r"
      by (rule validate_pdg_Some [of _ "arr ! 9"], rule pdg_column [OF distinct_extended])
         (simp_all add: extended_baryon_columns_def oscar2013_columns_def)
    then show ?thesis
      using 2 by (auto simp: accepted_length_simps init_Extended [OF 2])
  next
    case 3
    have "length arr = 21 \<Longrightarrow>
        \<exists>r. validate_pdg L (assign_attributes photons_columns arr empty_particle) = Inr r"
      by (rule validate_pdg_Some [of _ "arr ! 9"], rule pdg_column [OF distinct_photons])
         (simp_all add: photons_columns_def oscar2013_columns_def)
    then show ?thesis
      by (auto simp: 3 accepted_length_simps init_Photons)
  next
    case 4
    have "length arr = 7 \<Longrightarrow> \<exists>r. initialize_from_array L ''JETSCAPE'' arr = Inr r"
      using init_JETSCAPE [of arr L] validate_pdg_Some by metis
    then show ?thesis
      using init_JETSCAPE_length [of arr L] by (auto simp: 4 accepted_length_simps)
  qed
qed

lemma Particle_both [simp]:
  "Particle L (Some f) (Some a) = initialize_from_array L f a"
  by (simp add: Particle_def)

lemma extended_trailing:
  assumes "f = ''Oscar2013Extended'' \<or> f = ''Oscar2013Extended_IC''"
    and "initialize_from_array L f arr = Inr (p, ws)"
  shows "baryon_number_attr p = (if length arr < 21 then None else Some (arr ! 20))
       \<and> strangeness_attr p = (if length arr < 22 then None else Some (arr ! 21))"
proof -
  let ?p0 = "assign_attributes extended_baryon_columns arr empty_particle"
  from assms(2) have v: "validate_pdg L ?p0 = Inr (p, ws)"
    by (simp add: init_Extended [OF assms(1)] split: if_splits)
  from validate_pdg_Inr [OF v] obtain c where
    p: "p = ?p0\<lparr>pdg_valid_attr := Some (is_valid (L c))\<rparr>"
    by blast
  have "baryon_number_attr ?p0 = (if length arr < 20 + 1 then None else Some (arr ! 20))"
    by (rule baryon_column [OF distinct_extended]) (simp add: extended_baryon_columns_def)
  moreover have "strangeness_attr ?p0 = (if length arr < 21 + 1 then None else Some (arr ! 21))"
    by (rule strangeness_column [OF distinct_extended]) (simp add: extended_baryon_columns_def)
  ultimately show ?thesis
    by (simp add: p)
qed

text \<open>
  Claim C6. For each of the five formats, \<^verbatim>\<open>Particle(input_format, particle_array)\<close> on an
  array of numbers returns a particle if and only if the length of the array is the number
  of columns of the format (12, 22, 22, 21 and 7), or, for \<^verbatim>\<open>Oscar2013Extended\<close> and
  \<^verbatim>\<open>Oscar2013Extended_IC\<close>, up to two fewer; every other length raises the
  \<^verbatim>\<open>ValueError\<close> of a corrupted input. For the two tolerant formats the baryon number and
  the strangeness are the columns 20 and 21 when the array has them and stay unset when it
  does not.
\<close>

theorem particle_array_length:
  assumes "input_format \<in> set [''Oscar2013'', ''Oscar2013Extended'', ''Oscar2013Extended_IC'',
                                 ''Oscar2013Extended_Photons'', ''JETSCAPE'']"
  shows "((\<exists>r. Particle L (Some input_format) (Some particle_array) = Inr r)
            \<longleftrightarrow> accepted_length input_format (length particle_array))
       \<and> (\<not> accepted_length input_format (length particle_array) \<longrightarrow>
            Particle L (Some input_format) (Some particle_array)
              = Inl (ValueError ''The input file is corrupted!''))
       \<and> (\<forall>p ws. (input_format = ''Oscar2013Extended'' \<or> input_format = ''Oscar2013Extended_IC'')
              \<and> Particle L (Some input_format) (Some particle_array) = Inr (p, ws) \<longrightarrow>
            baryon_number_attr p =
              (if length particle_array < 21 then None else Some (particle_array ! 20))
            \<and> strangeness_attr p =
              (if length particle_array < 22 then None else Some (particle_array ! 21)))"
proof -
  note acc = init_accepts [OF assms, of particle_array L]
  have iff: "(\<exists>r. initialize_from_array L input_format particle_array = Inr r)
      \<longleftrightarrow> accepted_length input_format (length particle_array)"
  proof
    assume "\<exists>r. initialize_from_array L input_format particle_array = Inr r"
    then show "accepted_length input_format (length particle_array)"
      using acc by (cases "accepted_length input_format (length particle_array)") auto
  next
    assume "accepted_length input_format (length particle_array)"
    then show "\<exists>r. initialize_from_array L input_format particle_array = Inr r"
      using acc by blast
  qed
  have trail: "\<forall>p ws. (input_format = ''Oscar2013Extended'' \<or> input_format = ''Oscar2013Extended_IC'')
              \<and> initialize_from_array L input_format particle_array = Inr (p, ws) \<longrightarrow>
            baryon_number_attr p =
              (if length particle_array < 21 then None else Some (particle_array ! 20))
            \<and> strangeness_attr p =
              (if length particle_array < 22 then None else Some (particle_array ! 21))"
    using extended_trailing by blast
  show ?thesis
    unfolding Particle_both using iff acc trail by blast
qed

text \<open>
  C6, instances: twenty columns in the extended format, three columns in the format of
  twelve, and the seven columns of JETSCAPE.
\<close>

theorem particle_array_length_witness:
  "(\<exists>p ws. Particle invalid_lookup (Some ''Oscar2013Extended'')
        (Some [0, 1, 2, 3, 4, 5, 6, 7, 8, 9, 10, 11, 12, 13, 14, 15, 16, 17, 18, 19]) = Inr (p, ws)
      \<and> baryon_number_attr p = None \<and> strangeness_attr p = None)
   \<and> Particle invalid_lookup (Some ''Oscar2013'') (Some [1, 2, 3])
       = Inl (ValueError ''The input file is corrupted!'')
   \<and> (\<exists>r. Particle invalid_lookup (Some ''JETSCAPE'') (Some [0, 211, 11, 2, 1, 0, 0]) = Inr r)"
proof -
  let ?a20 = "[0, 1, 2, 3, 4, 5, 6, 7, 8, 9, 10, 11, 12, 13, 14, 15, 16, 17, 18, 19] :: real list"
  have ext: "''Oscar2013Extended'' \<in> set [''Oscar2013'', ''Oscar2013Extended'',
      ''Oscar2013Extended_IC'', ''Oscar2013Extended_Photons'', ''JETSCAPE'']"
    and osc: "''Oscar2013'' \<in> set [''Oscar2013'', ''Oscar2013Extended'',
      ''Oscar2013Extended_IC'', ''Oscar2013Extended_Photons'', ''JETSCAPE'']"
    and jet: "''JETSCAPE'' \<in> set [''Oscar2013'', ''Oscar2013Extended'',
      ''Oscar2013Extended_IC'', ''Oscar2013Extended_Photons'', ''JETSCAPE'']"
    by simp_all
  note e = particle_array_length [OF ext, of invalid_lookup ?a20]
  have "accepted_length ''Oscar2013Extended'' (length ?a20)"
    by (simp add: accepted_length_simps)
  with e obtain p ws where
    p: "Particle invalid_lookup (Some ''Oscar2013Extended'') (Some ?a20) = Inr (p, ws)"
    by fastforce
  with e have "baryon_number_attr p = None \<and> strangeness_attr p = None"
    by simp
  with p have first: "\<exists>p ws. Particle invalid_lookup (Some ''Oscar2013Extended'') (Some ?a20)
      = Inr (p, ws) \<and> baryon_number_attr p = None \<and> strangeness_attr p = None"
    by blast
  have second: "Particle invalid_lookup (Some ''Oscar2013'') (Some [1, 2, 3])
       = Inl (ValueError ''The input file is corrupted!'')"
    using particle_array_length [OF osc, of invalid_lookup "[1, 2, 3]"]
    by (simp add: accepted_length_simps)
  have third: "\<exists>r. Particle invalid_lookup (Some ''JETSCAPE'') (Some [0, 211, 11, 2, 1, 0, 0]) = Inr r"
    using particle_array_length [OF jet, of invalid_lookup "[0, 211, 11, 2, 1, 0, 0]"]
    by (simp add: accepted_length_simps)
  from first second third show ?thesis
    by blast
qed

subsection \<open>The queries of a particle with an invalid PDG code\<close>

lemma init_validate:
  assumes "initialize_from_array L f arr = Inr r"
  shows "\<exists>p0. validate_pdg L p0 = Inr r"
  using assms
  by (auto simp: initialize_from_array_def Let_def bind_e_def split: option.splits if_splits sum.splits)

lemma validated_flag:
  assumes "validate_pdg L p0 = Inr (p, ws)" and "pdg_attr p = Some c"
  shows "pdg_valid_attr p = Some (is_valid (L c))
       \<and> ws = (if \<not> is_valid (L c) then [InvalidPDGWarning (Some c)] else [])"
proof -
  from validate_pdg_Inr [OF assms(1)] obtain c' where
    c': "pdg_attr p0 = Some c'" "p = p0\<lparr>pdg_valid_attr := Some (is_valid (L c'))\<rparr>"
    "ws = (if \<not> is_valid (L c') then [InvalidPDGWarning (Some c')] else [])"
    by blast
  with assms(2) have "c' = c" by simp
  with c' show ?thesis by simp
qed

lemma queries_default:
  assumes "\<not> pdg_valid_true p"
  shows "compute_charge_from_pdg L p = Inr None \<and> spin L p = Inr None
       \<and> spin_degeneracy L p = Inr None \<and> is_hadron L p = Inr False
       \<and> is_meson L p = Inr False \<and> is_baryon L p = Inr False
       \<and> is_strange L p = Inr False \<and> is_heavy_flavor L p = Inr False"
  using assms
  by (simp add: compute_charge_from_pdg_def spin_def spin_degeneracy_def is_hadron_def
      is_meson_def is_baryon_def is_strange_def is_heavy_flavor_def)

lemma jetscape_charge_unset:
  assumes "initialize_from_array L ''JETSCAPE'' arr = Inr (p, ws)"
  shows "charge p = Inl (ValueError ''charge not set'')"
proof -
  have len: "length arr = 7"
    using assms init_JETSCAPE_length [of arr L] by auto
  from init_JETSCAPE [OF len, of L] assms obtain p0 where
    v: "validate_pdg L p0 = Inr (p, ws)" and c: "charge_attr p0 = None"
    by auto
  from validate_pdg_Inr [OF v] c have "charge_attr p = None"
    by auto
  then show ?thesis
    by (simp add: charge_def)
qed

lemma oscar_charge_column:
  assumes "f \<in> set [''Oscar2013'', ''Oscar2013Extended'', ''Oscar2013Extended_IC'',
                      ''Oscar2013Extended_Photons'']"
    and "initialize_from_array L f arr = Inr (p, ws)"
  shows "charge p = Inr (arr ! 11)"
proof -
  from assms(1) have "f = ''Oscar2013''
      \<or> (f = ''Oscar2013Extended'' \<or> f = ''Oscar2013Extended_IC'')
      \<or> f = ''Oscar2013Extended_Photons''"
    by (simp only: list.set insert_iff empty_iff simp_thms disj_assoc)
  then consider (1) "f = ''Oscar2013''"
    | (2) "f = ''Oscar2013Extended'' \<or> f = ''Oscar2013Extended_IC''"
    | (3) "f = ''Oscar2013Extended_Photons''"
    by blast
  then have "\<exists>cols. validate_pdg L (assign_attributes cols arr empty_particle) = Inr (p, ws)
      \<and> distinct (map fst cols) \<and> (''charge_'', 11) \<in> set cols \<and> 11 < length arr"
  proof cases
    case 1
    with assms(2) have "validate_pdg L (assign_attributes oscar2013_columns arr empty_particle)
        = Inr (p, ws) \<and> 11 < length arr"
      by (simp add: init_Oscar2013 split: if_splits)
    then show ?thesis
      using distinct_oscar2013 charge_in_columns(1) by blast
  next
    case 2
    with assms(2) have "validate_pdg L (assign_attributes extended_baryon_columns arr empty_particle)
        = Inr (p, ws) \<and> 11 < length arr"
      by (simp add: init_Extended [OF 2] split: if_splits)
    then show ?thesis
      using distinct_extended charge_in_columns(2) by blast
  next
    case 3
    with assms(2) have "validate_pdg L (assign_attributes photons_columns arr empty_particle)
        = Inr (p, ws) \<and> 11 < length arr"
      by (simp add: init_Photons split: if_splits)
    then show ?thesis
      using distinct_photons charge_in_columns(3) by blast
  qed
  then obtain cols where v: "validate_pdg L (assign_attributes cols arr empty_particle) = Inr (p, ws)"
    and cols: "distinct (map fst cols)" "(''charge_'', 11) \<in> set cols" and len: "11 < length arr"
    by blast
  from validate_pdg_Inr [OF v] have "charge_attr p = charge_attr (assign_attributes cols arr empty_particle)"
    by auto
  also have "\<dots> = Some (arr ! 11)"
    using charge_column [OF cols, of arr empty_particle] len by simp
  finally show ?thesis
    by (simp add: charge_def)
qed

lemma invalid_jetscape_init:
  "initialize_from_array invalid_lookup ''JETSCAPE'' [0, 99999, 11, 2, 1, 0, 0]
     = Inr (invalid_jetscape_particle, [InvalidPDGWarning (Some 99999)])"
  by (simp add: initialize_from_array_def attribute_mapping_def jetscape_columns_def setattr_def empty_particle_def
      compute_mass_from_energy_momentum_def E_def p_abs_def px_def py_def pz_def
      compute_charge_from_pdg_def pdg_valid_true_def validate_pdg_def invalid_lookup_def
      invalid_jetscape_particle_def Let_def)

text \<open>
  Claim C7, as the code has it. Take a particle made by \<^verbatim>\<open>__initialize_from_array\<close> or by
  the setter of \<^verbatim>\<open>pdg\<close> whose PDG code the lookup holds invalid. The one warning is given
  then, by the constructor or the setter, not by the queries. The methods
  \<^verbatim>\<open>compute_charge_from_pdg\<close>, \<^verbatim>\<open>spin\<close> and \<^verbatim>\<open>spin_degeneracy\<close> return \<^verbatim>\<open>None\<close>, and
  \<^verbatim>\<open>is_hadron\<close>, \<^verbatim>\<open>is_meson\<close>, \<^verbatim>\<open>is_baryon\<close>, \<^verbatim>\<open>is_strange\<close> and \<^verbatim>\<open>is_heavy_flavor\<close>
  return \<^verbatim>\<open>False\<close>, none of them raising. The property \<^verbatim>\<open>charge\<close> is not among them: on
  a particle made from a JETSCAPE line it raises \<^verbatim>\<open>ValueError\<close>, the charge being unset,
  and on a particle of the Oscar formats it returns the charge column of the line.
\<close>

theorem invalid_pdg_queries_default:
  assumes "initialize_from_array L input_format particle_array = Inr (p, ws)
           \<or> set_pdg L c q = Inr (p, ws)"
    and "pdg_attr p = Some c" and "\<not> is_valid (L c)"
  shows "ws = [InvalidPDGWarning (Some c)]
       \<and> compute_charge_from_pdg L p = Inr None \<and> spin L p = Inr None
       \<and> spin_degeneracy L p = Inr None \<and> is_hadron L p = Inr False
       \<and> is_meson L p = Inr False \<and> is_baryon L p = Inr False
       \<and> is_strange L p = Inr False \<and> is_heavy_flavor L p = Inr False
       \<and> (initialize_from_array L ''JETSCAPE'' particle_array = Inr (p, ws) \<longrightarrow>
            charge p = Inl (ValueError ''charge not set''))
       \<and> (input_format \<in> set [''Oscar2013'', ''Oscar2013Extended'', ''Oscar2013Extended_IC'',
                                ''Oscar2013Extended_Photons'']
            \<and> initialize_from_array L input_format particle_array = Inr (p, ws) \<longrightarrow>
            charge p = Inr (particle_array ! 11))"
proof -
  from assms(1) obtain p0 where v: "validate_pdg L p0 = Inr (p, ws)"
    using init_validate [of L input_format particle_array "(p, ws)"]
    by (auto simp: set_pdg_def)
  from validated_flag [OF v assms(2)] assms(3)
  have flag: "pdg_valid_attr p = Some False" and w: "ws = [InvalidPDGWarning (Some c)]"
    by simp_all
  from flag have "\<not> pdg_valid_true p"
    by (simp add: pdg_valid_true_def)
  from queries_default [OF this, of L] w show ?thesis
    using jetscape_charge_unset [of L particle_array p ws]
      oscar_charge_column [of input_format L particle_array p ws]
    by blast
qed

text \<open>C7, an instance: the particle of the JETSCAPE line \<^verbatim>\<open>0 99999 11 2 1 0 0\<close>.\<close>

theorem invalid_pdg_queries_default_witness:
  "compute_charge_from_pdg invalid_lookup invalid_jetscape_particle = Inr None
   \<and> spin invalid_lookup invalid_jetscape_particle = Inr None
   \<and> spin_degeneracy invalid_lookup invalid_jetscape_particle = Inr None
   \<and> is_hadron invalid_lookup invalid_jetscape_particle = Inr False
   \<and> is_meson invalid_lookup invalid_jetscape_particle = Inr False
   \<and> is_baryon invalid_lookup invalid_jetscape_particle = Inr False
   \<and> is_strange invalid_lookup invalid_jetscape_particle = Inr False
   \<and> is_heavy_flavor invalid_lookup invalid_jetscape_particle = Inr False
   \<and> charge invalid_jetscape_particle = Inl (ValueError ''charge not set'')"
proof -
  have made: "initialize_from_array invalid_lookup ''JETSCAPE'' [0, 99999, 11, 2, 1, 0, 0]
       = Inr (invalid_jetscape_particle, [InvalidPDGWarning (Some 99999)])
     \<or> set_pdg invalid_lookup 99999 empty_particle
       = Inr (invalid_jetscape_particle, [InvalidPDGWarning (Some 99999)])"
    by (simp add: invalid_jetscape_init)
  have code: "pdg_attr invalid_jetscape_particle = Some 99999"
    by (simp add: invalid_jetscape_particle_def)
  have invalid: "\<not> is_valid (invalid_lookup 99999)"
    by (simp add: invalid_lookup_def)
  from invalid_pdg_queries_default [OF made code invalid] invalid_jetscape_init
  show ?thesis
    by simp
qed

text \<open>
  C7 as stated fails on the property \<^verbatim>\<open>charge\<close>: for that particle, whose code is invalid,
  it raises instead of returning \<^verbatim>\<open>None\<close>.
\<close>

theorem invalid_pdg_charge_counterexample:
  "initialize_from_array invalid_lookup ''JETSCAPE'' [0, 99999, 11, 2, 1, 0, 0]
     = Inr (invalid_jetscape_particle, [InvalidPDGWarning (Some 99999)])
   \<and> is_valid (invalid_lookup 99999) = False
   \<and> charge invalid_jetscape_particle = Inl (ValueError ''charge not set'')"
  by (simp add: invalid_jetscape_init)
     (simp add: invalid_lookup_def charge_def invalid_jetscape_particle_def)

subsection \<open>The cross section of the last line\<close>

lemma isspace_newline [simp]: "isspace (CHR 0x0A)"
  by (simp add: isspace_def)

lemma split_space_all_space:
  "\<forall>c\<in>set t. isspace c \<Longrightarrow> split_space cur t = (if cur = [] then [] else [rev cur])"
  by (induction t arbitrary: cur) auto

lemma split_space_append_space:
  "\<forall>c\<in>set t. isspace c \<Longrightarrow> split_space cur (s @ t) = split_space cur s"
  by (induction s arbitrary: cur) (auto simp: split_space_all_space)

lemma split_space_dropWhile:
  "split_space [] (dropWhile isspace s) = split_space [] s"
  by (induction s) auto

lemma strip_decompose:
  "\<exists>t. (\<forall>c\<in>set t. isspace c) \<and> dropWhile isspace s = strip s @ t"
proof -
  let ?u = "dropWhile isspace s"
  have "rev (dropWhile isspace (rev ?u)) @ rev (takeWhile isspace (rev ?u)) =
      rev (takeWhile isspace (rev ?u) @ dropWhile isspace (rev ?u))"
    by (simp only: rev_append)
  also have "\<dots> = rev (rev ?u)"
    by (simp only: takeWhile_dropWhile_id)
  finally have "?u = strip s @ rev (takeWhile isspace (rev ?u))"
    by (simp add: strip_def)
  moreover have "\<forall>c\<in>set (rev (takeWhile isspace (rev ?u))). isspace c"
    by (auto dest: set_takeWhileD)
  ultimately show ?thesis by blast
qed

lemma py_split_strip: "py_split (strip s) = py_split s"
proof -
  from strip_decompose [of s] obtain t where
    t: "\<forall>c\<in>set t. isspace c" "dropWhile isspace s = strip s @ t"
    by blast
  have "py_split s = split_space [] (dropWhile isspace s)"
    by (simp add: py_split_def split_space_dropWhile)
  also have "\<dots> = split_space [] (strip s)"
    by (simp add: t split_space_append_space)
  finally show ?thesis
    by (simp add: py_split_def)
qed

lemma strip_newline: "strip (s @ [CHR 0x0A]) = strip s"
proof (cases "\<forall>c\<in>set s. isspace c")
  case True
  then have a: "dropWhile isspace s = []"
    by (simp add: dropWhile_eq_Nil_conv)
  from True have b: "dropWhile isspace (s @ [CHR 0x0A]) = []"
    by (simp add: dropWhile_append)
  show ?thesis
    unfolding strip_def a b by simp
next
  case False
  then have c: "dropWhile isspace (s @ [CHR 0x0A]) = dropWhile isspace s @ [CHR 0x0A]"
    by (simp add: dropWhile_append)
  show ?thesis
    unfolding strip_def c by simp
qed

lemma scan_back_found:
  assumes "q \<le> p" "bs ! q = CHR 0x0A" "\<forall>i. q < i \<and> i \<le> p \<longrightarrow> bs ! i \<noteq> CHR 0x0A"
  shows "scan_back bs p = Inr (Suc q)"
  using assms
proof (induction p)
  case 0
  then show ?case by simp
next
  case (Suc p)
  show ?case
  proof (cases "q = Suc p")
    case True
    with Suc.prems show ?thesis by simp
  next
    case False
    with Suc.prems have "q \<le> p" "bs ! Suc p \<noteq> CHR 0x0A" by auto
    with Suc show ?thesis by simp
  qed
qed

lemma scan_back_missing:
  assumes "\<forall>i\<le>p. bs ! i \<noteq> CHR 0x0A"
  shows "scan_back bs p = Inl (OSError ''[Errno 22] Invalid argument'')"
  using assms by (induction p) simp_all

lemma get_last_line_two_lines:
  assumes "CHR 0x0A \<notin> set lst"
  shows "get_last_line (pre @ [CHR 0x0A] @ lst @ [CHR 0x0A]) = Inr (strip lst)"
proof -
  let ?bs = "pre @ [CHR 0x0A] @ lst @ [CHR 0x0A]"
  let ?q = "length pre"
  have len: "length ?bs - 2 = ?q + length lst" "\<not> length ?bs < 2"
    by simp_all
  have at_q: "?bs ! ?q = CHR 0x0A"
    by (simp add: nth_append)
  have after: "\<forall>i. ?q < i \<and> i \<le> ?q + length lst \<longrightarrow> ?bs ! i \<noteq> CHR 0x0A"
  proof (intro allI impI)
    fix i assume i: "?q < i \<and> i \<le> ?q + length lst"
    then have "?bs ! i = lst ! (i - ?q - 1)"
      by (auto simp: nth_append nth_Cons')
    moreover have "lst ! (i - ?q - 1) \<in> set lst"
      using i by (intro nth_mem) auto
    ultimately show "?bs ! i \<noteq> CHR 0x0A"
      using assms by metis
  qed
  have scan: "scan_back ?bs (?q + length lst) = Inr (Suc ?q)"
    by (rule scan_back_found [OF _ at_q after]) simp
  have d: "drop (Suc ?q) ?bs = lst @ [CHR 0x0A]"
    by simp
  have "\<And>x. x \<in> set lst \<Longrightarrow> x \<noteq> CHR 0x0A"
    using assms by auto
  then have tw: "takeWhile (\<lambda>c. c \<noteq> CHR 0x0A) (lst @ [CHR 0x0A]) = lst"
    by (simp add: takeWhile_append2)
  have "readline_at ?bs (Suc ?q) = lst @ [CHR 0x0A]"
    unfolding readline_at_def d Let_def by (simp add: tw)
  then show ?thesis
    unfolding get_last_line_def len
    by (simp add: scan strip_newline del: append.simps)
qed

lemma file_of_lines_snoc:
  "lines \<noteq> [] \<Longrightarrow> \<exists>pre. file_of_lines (lines @ [lst]) = pre @ [CHR 0x0A] @ lst @ [CHR 0x0A]"
proof -
  assume "lines \<noteq> []"
  then obtain ls l where "lines = ls @ [l]"
    by (metis rev_exhaust)
  then have "file_of_lines (lines @ [lst]) = (file_of_lines ls @ l) @ [CHR 0x0A] @ lst @ [CHR 0x0A]"
    by (simp add: file_of_lines_def)
  then show ?thesis by blast
qed

lemma collect_numbers_map_filter:
  "length numbers < 2 \<Longrightarrow>
   collect_numbers to_float words numbers = take 2 (numbers @ List.map_filter to_float words)"
proof (induction words arbitrary: numbers)
  case Nil
  then show ?case by (simp add: map_filter_simps)
next
  case (Cons w ws)
  show ?case
  proof (cases "to_float w")
    case None
    with Cons show ?thesis by (simp add: map_filter_simps)
  next
    case (Some x)
    show ?thesis
    proof (cases "length numbers = 1")
      case True
      with Some show ?thesis by (simp add: map_filter_simps)
    next
      case False
      with Cons.prems have "numbers = []" by (cases numbers) auto
      with Some Cons.IH [of "[x]"] show ?thesis by (simp add: map_filter_simps)
    qed
  qed
qed

text \<open>
  Claim C10, as the code has it. For a file of at least two lines, each ended by a line feed,
  \<^verbatim>\<open>get_sigmaGen\<close> returns the first two numbers among the whitespace-separated words of
  the last line, in their order, when there are two; when there are fewer it raises
  \<^verbatim>\<open>IndexError\<close>. (The bytes of the last line are ASCII, which decode to themselves.)
\<close>

theorem get_sigmaGen_last_line:
  assumes "lines \<noteq> []" and "CHR 0x0A \<notin> set last_line"
  shows "get_sigmaGen to_float (file_of_lines (lines @ [last_line])) =
         (case float_words to_float last_line of
            a # b # rest \<Rightarrow> Inr (a, b)
          | _ \<Rightarrow> Inl (IndexError ''list index out of range''))"
proof -
  from file_of_lines_snoc [OF assms(1)] obtain pre where
    "file_of_lines (lines @ [last_line]) = pre @ [CHR 0x0A] @ last_line @ [CHR 0x0A]"
    by blast
  then have last: "get_last_line (file_of_lines (lines @ [last_line])) = Inr (strip last_line)"
    using get_last_line_two_lines [OF assms(2)] by simp
  have "collect_numbers to_float (py_split last_line) [] = take 2 (float_words to_float last_line)"
    by (simp add: collect_numbers_map_filter float_words_def)
  then show ?thesis
    unfolding get_sigmaGen_def last
    by (cases "float_words to_float last_line" rule: list.exhaust [case_product list.exhaust])
       (auto simp: py_split_strip split: list.splits)
qed

text \<open>
  C10, instances: a header line and a last line with two numbers, and the same with one.
\<close>

theorem get_sigmaGen_last_line_witness:
  "get_sigmaGen decimal_float (file_of_lines [''# JETSCAPE_FINAL_STATE'', ''# sigmaGen 12 sigmaErr 3''])
     = Inr (12, 3)
   \<and> get_sigmaGen decimal_float (file_of_lines [''# JETSCAPE_FINAL_STATE'', ''# sigmaGen 12''])
     = Inl (IndexError ''list index out of range'')"
proof -
  have a: "float_words decimal_float ''# sigmaGen 12 sigmaErr 3'' = [12, 3]"
    by (simp add: float_words_def py_split_def isspace_def map_filter_simps decimal_float_def
        decimal_word_def)
  have b: "float_words decimal_float ''# sigmaGen 12'' = [12]"
    by (simp add: float_words_def py_split_def isspace_def map_filter_simps decimal_float_def
        decimal_word_def)
  have "get_sigmaGen decimal_float
      (file_of_lines ([''# JETSCAPE_FINAL_STATE''] @ [''# sigmaGen 12 sigmaErr 3''])) = Inr (12, 3)"
    by (subst get_sigmaGen_last_line) (simp_all add: a)
  moreover have "get_sigmaGen decimal_float
      (file_of_lines ([''# JETSCAPE_FINAL_STATE''] @ [''# sigmaGen 12'']))
      = Inl (IndexError ''list index out of range'')"
    by (subst get_sigmaGen_last_line) (simp_all add: b)
  ultimately show ?thesis
    by simp
qed

text \<open>
  C10 as stated fails on a file of one line: the last line holds two numbers, but the search
  for the line feed before it steps back beyond the first byte, and the call raises
  \<^verbatim>\<open>OSError\<close>.
\<close>

theorem get_sigmaGen_one_line_counterexample:
  "float_words decimal_float ''12 3'' = [12, 3]
   \<and> get_sigmaGen decimal_float (file_of_lines [''12 3''])
       = Inl (OSError ''[Errno 22] Invalid argument'')"
  by (simp add: float_words_def py_split_def isspace_def map_filter_simps decimal_float_def
      decimal_word_def get_sigmaGen_def get_last_line_def file_of_lines_def numeral_3_eq_3)

subsection \<open>The order of the filters\<close>

text \<open>
  Claim C5, as the code has it. \<^verbatim>\<open>__apply_kwargs_filters\<close> applies the filters in the order
  in which the mapping lists its keys: with \<^verbatim>\<open>charged_particles\<close> before \<^verbatim>\<open>pt_cut\<close> the
  charge filter runs first, with \<^verbatim>\<open>pt_cut\<close> before \<^verbatim>\<open>charged_particles\<close> the cut runs first.
  The two configurations give the same events whenever the two filter functions commute on
  the event.
\<close>

theorem filters_applied_in_mapping_order:
  "apply_kwargs_filters F event
       (FiltersDict [(''charged_particles'', PyBool True), (''pt_cut'', c)])
     = bind_e (charged_particles F event) (\<lambda>e. pt_cut F e c)
   \<and> apply_kwargs_filters F event
       (FiltersDict [(''pt_cut'', c), (''charged_particles'', PyBool True)])
     = bind_e (pt_cut F event c) (charged_particles F)
   \<and> (bind_e (charged_particles F event) (\<lambda>e. pt_cut F e c)
         = bind_e (pt_cut F event c) (charged_particles F) \<longrightarrow>
       apply_kwargs_filters F event
           (FiltersDict [(''charged_particles'', PyBool True), (''pt_cut'', c)])
         = apply_kwargs_filters F event
           (FiltersDict [(''pt_cut'', c), (''charged_particles'', PyBool True)]))"
  by (simp add: apply_filter_def bind_e_def split: sum.splits)

lemma charge_flow_particle: "charge (flow_particle a b w) = Inl (ValueError ''charge not set'')"
  by (simp add: charge_def flow_particle_def empty_particle_def)

lemma charged_example_values:
  "charge charged_example_particle = Inr 1" "pt_abs charged_example_particle = Inr 1"
  by (simp_all add: charged_example_particle_def charge_def pt_abs_def px_def py_def
      flow_particle_def)

text \<open>C5, an instance: a charged particle inside the cut, kept in both orders.\<close>

theorem filters_applied_in_mapping_order_witness:
  "apply_kwargs_filters example_filters [[charged_example_particle]]
       (FiltersDict [(''charged_particles'', PyBool True), (''pt_cut'', PyTuple [PyFloat 0, PyFloat 2])])
     = Inr [[charged_example_particle]]
   \<and> apply_kwargs_filters example_filters [[charged_example_particle]]
       (FiltersDict [(''pt_cut'', PyTuple [PyFloat 0, PyFloat 2]), (''charged_particles'', PyBool True)])
     = Inr [[charged_example_particle]]"
proof -
  have a: "charged_particles example_filters [[charged_example_particle]]
      = Inr [[charged_example_particle]]"
    by (simp add: example_filters_def charged_example_values)
  have b: "pt_cut example_filters [[charged_example_particle]] (PyTuple [PyFloat 0, PyFloat 2])
      = Inr [[charged_example_particle]]"
    by (simp add: example_filters_def charged_example_values)
  from filters_applied_in_mapping_order
    [of example_filters "[[charged_example_particle]]" "PyTuple [PyFloat 0, PyFloat 2]"]
  show ?thesis
    by (simp add: a b)
qed

text \<open>
  C5 as stated fails: on a particle whose charge is unset and whose transverse momentum is
  outside the cut, the charge filter raises when it runs first, and the cut removes the
  particle before the charge is read when it runs first.
\<close>

theorem filters_order_counterexample:
  "apply_kwargs_filters example_filters [[flow_particle 1 0 None]]
       (FiltersDict [(''charged_particles'', PyBool True), (''pt_cut'', PyTuple [PyFloat 2, PyFloat 3])])
     = Inl (ValueError ''charge not set'')
   \<and> apply_kwargs_filters example_filters [[flow_particle 1 0 None]]
       (FiltersDict [(''pt_cut'', PyTuple [PyFloat 2, PyFloat 3]), (''charged_particles'', PyBool True)])
     = Inr [[]]"
  by (simp add: apply_filter_def example_filters_def charge_flow_particle pt_abs_axis)

subsection \<open>The index pass on a valid file\<close>

lemma contains_nonempty: "contains (c # cs) line \<Longrightarrow> line \<noteq> []"
  by (cases line) simp_all

lemma collect_skip_data:
  assumes "list_all is_data_line ds"
  shows "collect_event_output D (ds @ lines) = collect_event_output D lines"
  using assms by (induction ds) (simp_all add: is_data_line_def)

lemma collect_header:
  assumes "is_event_header to_int D k n h"
  shows "collect_event_output D (h # lines) =
         bind_e (collect_event_output D lines) (\<lambda>rows.
           Inr ((words_of h ! 2, words_of h ! 8) # rows))"
proof -
  from assms have "h \<noteq> []" "contains ''#'' h" "contains D h" "8 < length (words_of h)"
    by (auto simp: is_event_header_def dest: contains_nonempty)
  then show ?thesis
    by (simp add: word_at_def)
qed

lemma convert_header:
  assumes "is_event_header to_int D k n h"
  shows "convert_row to_int (words_of h ! 2, words_of h ! 8) = Inr (k, n)"
  using assms by (simp add: is_event_header_def convert_row_def convert_word_def)

lemma index_valid_events:
  assumes "valid_events to_int D k lines counts"
  shows "\<exists>rows. collect_event_output D lines = Inr rows
           \<and> mapM_e (convert_row to_int) rows = Inr (table_from k counts)"
  using assms
proof (induction counts arbitrary: k lines)
  case Nil
  then obtain t where t: "lines = [t]" "is_terminator D t"
    by (auto split: list.splits)
  then have "t \<noteq> []" "\<not> (contains ''#'' t \<and> contains D t)"
    by (auto simp: is_terminator_def dest: contains_nonempty)
  with t show ?case by auto
next
  case (Cons n ns)
  then obtain h rest where l: "lines = h # rest"
    and h: "is_event_header to_int D k (int n) h" and n: "n \<le> length rest"
    and ds: "list_all is_data_line (take n rest)"
    and v: "valid_events to_int D (k + 1) (drop n rest) ns"
    by (auto split: list.splits)
  from Cons.IH [OF v] obtain rows where
    rows: "collect_event_output D (drop n rest) = Inr rows"
    "mapM_e (convert_row to_int) rows = Inr (table_from (k + 1) ns)"
    by blast
  have "collect_event_output D rest = collect_event_output D (take n rest @ drop n rest)"
    by simp
  also have "\<dots> = Inr rows"
    unfolding collect_skip_data [OF ds] by (rule rows(1))
  finally have rest: "collect_event_output D rest = Inr rows" .
  have "collect_event_output D lines = Inr ((words_of h ! 2, words_of h ! 8) # rows)"
    unfolding l collect_header [OF h] rest by simp
  moreover have "mapM_e (convert_row to_int) ((words_of h ! 2, words_of h ! 8) # rows)
      = Inr (table_from k (n # ns))"
    by (simp add: convert_header [OF h] rows(2))
  ultimately show ?case by blast
qed

lemma length_table_from [simp]: "length (table_from k ns) = length ns"
  by (induction ns arbitrary: k) simp_all

lemma nth_table_from: "i < length ns \<Longrightarrow> table_from k ns ! i = (k + int i, int (ns ! i))"
proof (induction ns arbitrary: k i)
  case Nil
  then show ?case by simp
next
  case (Cons n ns)
  then show ?case by (cases i) (simp_all add: algebra_simps)
qed

lemma index_valid_file:
  assumes "valid_file to_int D file counts"
  shows "set_num_output_per_event to_int D file = Inr (table_from 1 counts, int (length counts))"
proof -
  from assms obtain h rest where f: "file = h # rest" "is_file_header D h"
    and v: "valid_events to_int D 1 rest counts"
    by (auto simp: valid_file_def split: list.splits)
  from index_valid_events [OF v] obtain rows where
    "collect_event_output D rest = Inr rows"
    "mapM_e (convert_row to_int) rows = Inr (table_from 1 counts)"
    by blast
  with f show ?thesis
    by (auto simp: set_num_output_per_event_def is_file_header_def)
qed

subsection \<open>The window of lines\<close>

lemma lines_of_simps [simp]:
  "lines_of [] = 0" "lines_of (n # ns) = Suc n + lines_of ns"
  by (simp_all add: lines_of_def)

lemma count_at_table_from:
  "i < length ns \<Longrightarrow> count_at (table_from k ns) i = Inr (int (ns ! i))"
  by (simp add: count_at_def nth_table_from)

lemma cumulate_lines_table:
  assumes "j \<le> length ns" "i \<le> j"
  shows "cumulate_lines (table_from k ns) [i..<j] c =
         Inr (c + int (lines_of (take (j - i) (drop i ns))))"
  using assms
proof (induction "j - i" arbitrary: i c)
  case 0
  then show ?case by simp
next
  case (Suc d)
  then have less: "i < j" "i < length ns" and d: "d = j - Suc i"
    by simp_all
  have upt: "[i..<j] = i # [Suc i..<j]"
    using less by (simp add: upt_rec)
  have td: "take (j - i) (drop i ns) = ns ! i # take (j - Suc i) (drop (Suc i) ns)"
    using less Suc.hyps(2) [symmetric]
    by (simp add: Cons_nth_drop_Suc [symmetric] d)
  from Suc.hyps(1) [OF d Suc.prems(1), of "c + (int (ns ! i) + 1)"] less
  show ?case
    unfolding upt td by (simp add: count_at_table_from)
qed

lemma valid_events_drop:
  assumes "valid_events to_int D k ls (ns1 @ ns2)"
  shows "valid_events to_int D (k + int (length ns1)) (drop (lines_of ns1) ls) ns2"
  using assms
proof (induction ns1 arbitrary: k ls)
  case Nil
  then show ?case by simp
next
  case (Cons n ns1)
  then obtain h rest where l: "ls = h # rest"
    and v: "valid_events to_int D (k + 1) (drop n rest) (ns1 @ ns2)"
    by (auto split: list.splits)
  from Cons.IH [OF v] show ?case
    by (simp add: l add.commute drop_drop algebra_simps)
qed

lemma data_blocks_drop:
  "data_blocks (drop (lines_of ns1) ls) ns2 = drop (length ns1) (data_blocks ls (ns1 @ ns2))"
proof (induction ns1 arbitrary: ls)
  case Nil
  then show ?case by simp
next
  case (Cons n ns1)
  have "drop (lines_of (n # ns1)) ls = drop (lines_of ns1) (drop (Suc n) ls)"
    by (simp add: add.commute)
  then show ?case
    using Cons.IH [of "drop (Suc n) ls"] by simp
qed

lemma length_data_blocks [simp]: "length (data_blocks ls ns) = length ns"
  by (induction ns arbitrary: ls) simp_all

lemma length_data_blocks_nth:
  assumes "valid_events to_int D k ls ns" "i < length ns"
  shows "length (data_blocks ls ns ! i) = ns ! i"
  using assms
proof (induction ns arbitrary: k ls i)
  case Nil
  then show ?case by simp
next
  case (Cons n ns)
  then obtain h rest where l: "ls = h # rest" and n: "n \<le> length rest"
    and v: "valid_events to_int D (k + 1) (drop n rest) ns"
    by (auto split: list.splits)
  show ?case
  proof (cases i)
    case 0
    with l n show ?thesis by simp
  next
    case (Suc i')
    with Cons.prems(2) Cons.IH [OF v, of i'] l show ?thesis by simp
  qed
qed

lemma mapM_e_Cons_Inr:
  assumes "mapM_e f (x # xs) = Inr ys"
  shows "\<exists>y ys'. f x = Inr y \<and> mapM_e f xs = Inr ys' \<and> ys = y # ys'"
  using assms by (auto simp: bind_e_def split: sum.splits)

lemma mapM_e_length: "mapM_e f xs = Inr ys \<Longrightarrow> length ys = length xs"
proof (induction xs arbitrary: ys)
  case Nil
  then show ?case by simp
next
  case (Cons x xs)
  from mapM_e_Cons_Inr [OF Cons.prems] Cons.IH show ?case by auto
qed

lemma mapM_e_nth:
  "mapM_e f xs = Inr ys \<Longrightarrow> i < length xs \<Longrightarrow> f (xs ! i) = Inr (ys ! i)"
proof (induction xs arbitrary: ys i)
  case Nil
  then show ?case by simp
next
  case (Cons x xs)
  from mapM_e_Cons_Inr [OF Cons.prems(1)] obtain y ys' where
    y: "f x = Inr y" "mapM_e f xs = Inr ys'" "ys = y # ys'"
    by blast
  with Cons.IH [OF y(2)] Cons.prems(2) show ?case
    by (cases i) simp_all
qed

lemma window_counts:
  assumes "0 \<le> a" "a \<le> b" "b < int (length counts)"
    and "kw_events kw = Some (EventsTuple a b)"
  shows "get_num_read_lines kw (table_from 1 counts) =
           Inr (int (lines_of (take (nat (b - a + 1)) (drop (nat a) counts))) + 1)"
    and "get_num_skip_lines kw (table_from 1 counts) =
           Inr (1 + int (lines_of (take (nat a) counts)))"
proof -
  have j: "nat (b + 1) \<le> length counts" "nat a \<le> nat (b + 1)"
    using assms(1-3) by simp_all
  have d: "nat (b + 1) - nat a = nat (b - a + 1)"
    using assms(1,2) by simp
  from cumulate_lines_table [OF j, of 1 0]
  show "get_num_read_lines kw (table_from 1 counts) =
           Inr (int (lines_of (take (nat (b - a + 1)) (drop (nat a) counts))) + 1)"
    by (simp add: get_num_read_lines_def assms(4) d)
  have "nat a \<le> length counts" "0 \<le> nat a"
    using assms(1-3) by simp_all
  from cumulate_lines_table [OF this, of 1 0]
  show "get_num_skip_lines kw (table_from 1 counts) =
           Inr (1 + int (lines_of (take (nat a) counts)))"
    using assms(1) by (auto simp: get_num_skip_lines_def assms(4))
qed

subsection \<open>The read pass on a valid file\<close>

lemma read_data_line:
  assumes "is_data_line d" "make_particle (words_of d) = Inr p" "0 < i"
  shows "read_lines to_int make_particle F kw i (Suc m) (d # rest) (pl, data, table) =
         read_lines to_int make_particle F kw (Suc i) m rest (pl, data @ [p], table)"
  using assms by (auto simp: is_data_line_def)

lemma read_data_lines:
  assumes "list_all is_data_line ds"
    and "mapM_e (\<lambda>l. make_particle (words_of l)) ds = Inr ps" and "0 < i"
  shows "read_lines to_int make_particle F kw i (length ds + m) (ds @ rest) (pl, data, table) =
         read_lines to_int make_particle F kw (i + length ds) m rest (pl, data @ ps, table)"
  using assms
proof (induction ds arbitrary: i data ps)
  case Nil
  then show ?case by simp
next
  case (Cons d ds)
  from mapM_e_Cons_Inr [OF Cons.prems(2)] obtain p ps' where
    p: "make_particle (words_of d) = Inr p"
    "mapM_e (\<lambda>l. make_particle (words_of l)) ds = Inr ps'" "ps = p # ps'"
    by blast
  from Cons.prems(1) have d: "is_data_line d" and ds: "list_all is_data_line ds"
    by simp_all
  have "read_lines to_int make_particle F kw i (length (d # ds) + m) ((d # ds) @ rest)
          (pl, data, table) =
        read_lines to_int make_particle F kw (Suc i) (length ds + m) (ds @ rest)
          (pl, data @ [p], table)"
    using read_data_line [where make_particle = make_particle, OF d p(1) Cons.prems(3)] by simp
  also have "\<dots> = read_lines to_int make_particle F kw (Suc i + length ds) m rest
          (pl, (data @ [p]) @ ps', table)"
    using Cons.IH [OF ds p(2), of "Suc i" "data @ [p]"] by simp
  finally show ?case
    by (simp add: p(3))
qed

lemma read_first_header:
  assumes "is_event_header to_int D k n h" "first_event_header kw = Inr k"
  shows "read_lines to_int make_particle F kw i (Suc m) (h # rest) (pl, data, table) =
         read_lines to_int make_particle F kw (Suc i) m rest (pl, data, table)"
proof -
  from assms(1) have "h \<noteq> []" "contains ''#'' h" "\<not> contains ''sigmaGen'' h"
    "contains ''Event'' h" "contains ''weight'' h" "8 < length (words_of h)"
    "to_int (words_of h ! 2) = Some k"
    by (auto simp: is_event_header_def dest: contains_nonempty)
  then show ?thesis
    by (simp add: assms(2) word_at_def convert_word_def)
qed

lemma read_next_header:
  assumes "is_event_header to_int D k n h" "first_event_header kw = Inr f" "k \<noteq> f"
    and "kw_filters kw = None"
  shows "read_lines to_int make_particle F kw i (Suc m) (h # rest) (pl, data, table) =
         read_lines to_int make_particle F kw (Suc i) m rest (pl @ [data], [], table)"
proof -
  from assms(1) have "h \<noteq> []" "contains ''#'' h" "\<not> contains ''sigmaGen'' h"
    "contains ''Event'' h" "contains ''weight'' h" "8 < length (words_of h)"
    "to_int (words_of h ! 2) = Some k"
    by (auto simp: is_event_header_def dest: contains_nonempty)
  then show ?thesis
    by (simp add: assms(2,3,4) word_at_def convert_word_def close_event_def)
qed

lemma read_terminator:
  assumes "is_terminator D t" "kw_filters kw = None"
  shows "read_lines to_int make_particle F kw i (Suc m) (t # rest) (pl, data, table) =
         read_lines to_int make_particle F kw (Suc i) m rest (pl @ [data], data, table)"
proof -
  from assms(1) have "t \<noteq> []" "contains ''#'' t" "contains ''sigmaGen'' t"
    by (auto simp: is_terminator_def dest: contains_nonempty)
  then show ?thesis
    by (simp add: assms(2) close_event_def)
qed

lemma read_following_events:
  assumes "valid_events to_int D k ls ns"
    and "first_event_header kw = Inr f" and "f < k" and "kw_filters kw = None"
    and "j \<le> length ns"
    and "mapM_e (mapM_e (\<lambda>l. make_particle (words_of l))) (take j (data_blocks ls ns)) = Inr evs"
    and "0 < i"
  shows "\<exists>d. read_lines to_int make_particle F kw i (lines_of (take j ns) + 1) ls (pl, data, table)
           = Inr (pl @ data # evs, d, table)"
  using assms(1,3,5,6,7)
proof (induction j arbitrary: k ls ns pl data i evs)
  case 0
  then have evs: "evs = []" by simp
  show ?case
  proof (cases ns)
    case Nil
    with "0.prems"(1) obtain t where t: "ls = [t]" "is_terminator D t"
      by (auto split: list.splits)
    show ?thesis
      using read_terminator [OF t(2) assms(4), of to_int make_particle F i 0 "[]" pl data table]
      by (simp add: t(1) evs)
  next
    case (Cons n ns')
    with "0.prems"(1) obtain h rest where h: "ls = h # rest"
      "is_event_header to_int D k (int n) h"
      by (auto split: list.splits)
    from "0.prems"(2) have "k \<noteq> f" by simp
    from read_next_header [OF h(2) assms(2) this assms(4), of make_particle F i 0 rest pl data table]
    show ?thesis
      by (simp add: h(1) evs)
  qed
next
  case (Suc j)
  from Suc.prems(3) obtain n ns' where ns: "ns = n # ns'" and j: "j \<le> length ns'"
    by (cases ns) auto
  with Suc.prems(1) obtain h rest where h: "ls = h # rest"
    "is_event_header to_int D k (int n) h" and n: "n \<le> length rest"
    and ds: "list_all is_data_line (take n rest)"
    and v: "valid_events to_int D (k + 1) (drop n rest) ns'"
    by (auto split: list.splits)
  from Suc.prems(4) have "mapM_e (mapM_e (\<lambda>l. make_particle (words_of l)))
      (take n rest # take j (data_blocks (drop n rest) ns')) = Inr evs"
    by (simp add: ns h(1))
  from mapM_e_Cons_Inr [OF this] obtain ps evs' where
    ps: "mapM_e (\<lambda>l. make_particle (words_of l)) (take n rest) = Inr ps"
    and evs': "mapM_e (mapM_e (\<lambda>l. make_particle (words_of l)))
      (take j (data_blocks (drop n rest) ns')) = Inr evs'"
    and evs: "evs = ps # evs'"
    by blast
  from Suc.prems(2) have kf: "k \<noteq> f" and fk: "f < k + 1" by simp_all
  let ?m = "lines_of (take j ns') + 1"
  have turns: "lines_of (take (Suc j) ns) + 1 = Suc (n + ?m)"
    by (simp add: ns)
  have len: "length (take n rest) = n"
    using n by simp
  have "read_lines to_int make_particle F kw i (Suc (n + ?m)) (h # rest) (pl, data, table) =
      read_lines to_int make_particle F kw (Suc i) (n + ?m) rest (pl @ [data], [], table)"
    by (rule read_next_header [OF h(2) assms(2) kf assms(4)])
  also have "\<dots> = read_lines to_int make_particle F kw (Suc i) (length (take n rest) + ?m)
      (take n rest @ drop n rest) (pl @ [data], [], table)"
    using n by (simp add: min_def)
  also have "\<dots> = read_lines to_int make_particle F kw (Suc i + length (take n rest)) ?m
      (drop n rest) (pl @ [data], [] @ ps, table)"
    by (rule read_data_lines [where make_particle = make_particle, OF ds ps]) simp
  finally have step: "read_lines to_int make_particle F kw i (Suc (n + ?m)) (h # rest)
      (pl, data, table) =
      read_lines to_int make_particle F kw (Suc i + n) ?m (drop n rest) (pl @ [data], ps, table)"
    using n by (simp add: min_def)
  from Suc.IH [OF v fk j evs', of "Suc i + n" "pl @ [data]" ps]
  obtain d where "read_lines to_int make_particle F kw (Suc i + n) ?m (drop n rest)
      (pl @ [data], ps, table) = Inr ((pl @ [data]) @ ps # evs', d, table)"
    by auto
  then show ?case
    unfolding turns h(1) step by (simp add: evs)
qed

lemma read_window:
  assumes "valid_events to_int D k ls ns"
    and "first_event_header kw = Inr k" and "kw_filters kw = None"
    and "0 < j" and "j \<le> length ns"
    and "mapM_e (mapM_e (\<lambda>l. make_particle (words_of l))) (take j (data_blocks ls ns)) = Inr evs"
  shows "\<exists>d. read_lines to_int make_particle F kw 0 (lines_of (take j ns) + 1) ls ([], [], table)
           = Inr (evs, d, table)"
proof -
  from assms(4) obtain j' where j': "j = Suc j'"
    by (cases j) auto
  with assms(5) obtain n ns' where ns: "ns = n # ns'" and jl: "j' \<le> length ns'"
    by (cases ns) auto
  with assms(1) obtain h rest where h: "ls = h # rest"
    "is_event_header to_int D k (int n) h" and n: "n \<le> length rest"
    and ds: "list_all is_data_line (take n rest)"
    and v: "valid_events to_int D (k + 1) (drop n rest) ns'"
    by (auto split: list.splits)
  from assms(6) have "mapM_e (mapM_e (\<lambda>l. make_particle (words_of l)))
      (take n rest # take j' (data_blocks (drop n rest) ns')) = Inr evs"
    by (simp add: ns h(1) j')
  from mapM_e_Cons_Inr [OF this] obtain ps evs' where
    ps: "mapM_e (\<lambda>l. make_particle (words_of l)) (take n rest) = Inr ps"
    and evs': "mapM_e (mapM_e (\<lambda>l. make_particle (words_of l)))
      (take j' (data_blocks (drop n rest) ns')) = Inr evs'"
    and evs: "evs = ps # evs'"
    by blast
  let ?m = "lines_of (take j' ns') + 1"
  have turns: "lines_of (take j ns) + 1 = Suc (n + ?m)"
    by (simp add: ns j')
  have len: "length (take n rest) = n"
    using n by simp
  have "read_lines to_int make_particle F kw 0 (Suc (n + ?m)) (h # rest) ([], [], table) =
      read_lines to_int make_particle F kw (Suc 0) (n + ?m) rest ([], [], table)"
    by (rule read_first_header [OF h(2) assms(2)])
  also have "\<dots> = read_lines to_int make_particle F kw (Suc 0) (length (take n rest) + ?m)
      (take n rest @ drop n rest) ([], [], table)"
    using n by (simp add: min_def)
  also have "\<dots> = read_lines to_int make_particle F kw (Suc 0 + length (take n rest)) ?m
      (drop n rest) ([], [] @ ps, table)"
    by (rule read_data_lines [where make_particle = make_particle, OF ds ps]) simp
  finally have step: "read_lines to_int make_particle F kw 0 (Suc (n + ?m)) (h # rest)
      ([], [], table) =
      read_lines to_int make_particle F kw (Suc n) ?m (drop n rest) ([], ps, table)"
    using n by (simp add: min_def)
  have "k < k + 1" by simp
  from read_following_events [OF v assms(2) this assms(3) jl evs', of "Suc n" F "[]" ps table]
  obtain d where "read_lines to_int make_particle F kw (Suc n) ?m (drop n rest) ([], ps, table)
      = Inr (ps # evs', d, table)"
    by auto
  then show ?thesis
    unfolding turns h(1) step by (simp add: evs)
qed

subsection \<open>The reconciliation\<close>

lemma reconcile_mismatch:
  assumes "kw_events kw = None" "int (length particle_list) \<noteq> num_events"
  shows "reconcile kw particle_list table num_events = Inl (IndexError mismatch_message)"
  using assms by (simp add: reconcile_def mismatch_message_def)

lemma reconcile_full_Inr:
  assumes "kw_events kw = None" "reconcile kw particle_list table num_events = Inr (pl, n, t)"
  shows "int (length pl) = n"
  using assms by (simp add: reconcile_def split: if_splits)

lemma set_particle_list_full_Inr:
  assumes "kw_events kw = None"
    and "set_particle_list to_int make_particle F kw file table num_events = Inr (pl, n, t)"
  shows "int (length pl) = n"
proof -
  from assms(2) obtain particle_list table' where
    "reconcile kw particle_list table' num_events = Inr (pl, n, t)"
    by (auto simp: set_particle_list_def bind_e_def split: sum.splits prod.splits)
  with assms(1) show ?thesis
    by (rule reconcile_full_Inr)
qed

lemma load_full_Inr:
  assumes "kw_events kw = None" and "load to_int make_particle F file kw = Inr (pl, n, t)"
  shows "int (length pl) = n"
proof -
  from assms(2) obtain table num_events where
    "set_particle_list to_int make_particle F kw file table num_events = Inr (pl, n, t)"
    by (auto simp: load_def bind_e_def split: sum.splits prod.splits if_splits)
  with assms(1) show ?thesis
    by (rule set_particle_list_full_Inr)
qed


lemma example_words:
  "words_of ''# Event 1 weight 1 EPangle 0 N_hadrons 1''
     = [''#'', ''Event'', ''1'', ''weight'', ''1'', ''EPangle'', ''0'', ''N_hadrons'', ''1'']"
  "words_of ''# Event 2 weight 1 EPangle 0 N_hadrons 0''
     = [''#'', ''Event'', ''2'', ''weight'', ''1'', ''EPangle'', ''0'', ''N_hadrons'', ''0'']"
  "words_of ''# Event 3 weight 1 EPangle 0 N_hadrons 2''
     = [''#'', ''Event'', ''3'', ''weight'', ''1'', ''EPangle'', ''0'', ''N_hadrons'', ''2'']"
  "words_of ''# Event 1 weight 1 EPangle 0 N_hadrons 0''
     = [''#'', ''Event'', ''1'', ''weight'', ''1'', ''EPangle'', ''0'', ''N_hadrons'', ''0'']"
  "words_of ''1 211 11 2 1 0 0'' = [''1'', ''211'', ''11'', ''2'', ''1'', ''0'', ''0'']"
  "words_of ''2 111 11 2 0 1 0'' = [''2'', ''111'', ''11'', ''2'', ''0'', ''1'', ''0'']"
  by (simp_all add: words_of_def)

lemma decimal_int_digits:
  "decimal_int ''0'' = Some 0" "decimal_int ''1'' = Some 1" "decimal_int ''2'' = Some 2"
  "decimal_int ''3'' = Some 3"
  by (simp_all add: decimal_int_def decimal_word_def)

lemma example_headers:
  "is_event_header decimal_int ''N_hadrons'' 1 1 ''# Event 1 weight 1 EPangle 0 N_hadrons 1''"
  "is_event_header decimal_int ''N_hadrons'' 2 0 ''# Event 2 weight 1 EPangle 0 N_hadrons 0''"
  "is_event_header decimal_int ''N_hadrons'' 3 2 ''# Event 3 weight 1 EPangle 0 N_hadrons 2''"
  unfolding is_event_header_def example_words by (simp_all add: decimal_int_digits)

lemma example_data:
  "is_data_line ''0 211 11 2 1 0 0''" "is_data_line ''1 211 11 2 1 0 0''"
  "is_data_line ''2 111 11 2 0 1 0''"
  by (simp_all add: is_data_line_def)

lemma example_valid: "valid_file decimal_int ''N_hadrons'' example_file [1, 0, 2]"
  by (simp add: valid_file_def example_file_def example_headers example_data
      is_file_header_def is_terminator_def)

lemma repeated_header_load:
  "load decimal_int Inr no_filters repeated_header_file no_kwargs
     = Inl (IndexError mismatch_message)"
proof -
  have h: "contains ''#'' ''# Event 1 weight 1 EPangle 0 N_hadrons 0''"
    "contains ''N_hadrons'' ''# Event 1 weight 1 EPangle 0 N_hadrons 0''"
    "contains ''Event'' ''# Event 1 weight 1 EPangle 0 N_hadrons 0''"
    "contains ''weight'' ''# Event 1 weight 1 EPangle 0 N_hadrons 0''"
    "\<not> contains ''sigmaGen'' ''# Event 1 weight 1 EPangle 0 N_hadrons 0''"
    "\<not> contains ''N_hadrons'' ''# JETSCAPE_FINAL_STATE v2 | N pid status E Px Py Pz''"
    "contains ''#'' ''# sigmaGen 12 sigmaErr 3''"
    "contains ''sigmaGen'' ''# sigmaGen 12 sigmaErr 3''"
    "\<not> contains ''N_hadrons'' ''# sigmaGen 12 sigmaErr 3''"
    by simp_all
  have index: "set_num_output_per_event decimal_int ''N_hadrons'' repeated_header_file
      = Inr ([(1, 0), (1, 0)], 2)"
    by (simp add: set_num_output_per_event_def repeated_header_file_def h example_words
        word_at_def convert_row_def convert_word_def decimal_int_digits)
  have window: "get_num_read_lines no_kwargs [(1, 0), (1, 0)] = Inr 3"
    "get_num_skip_lines no_kwargs [(1, 0), (1, 0)] = Inr 1"
    by (simp_all add: get_num_read_lines_def get_num_skip_lines_def no_kwargs_def)
  have three: "nat 3 = Suc (Suc (Suc 0))"
    by simp
  have read: "read_lines decimal_int Inr no_filters no_kwargs 0 (nat 3)
      (skip_lines 1 repeated_header_file) ([], [], [(1, 0), (1, 0)])
      = Inr ([[]], [], [(1, 0), (1, 0)])"
    unfolding three
    by (simp add: skip_lines_def repeated_header_file_def h example_words word_at_def
        convert_word_def decimal_int_digits first_event_header_def close_event_def no_kwargs_def)
  have "set_particle_list decimal_int Inr no_filters no_kwargs repeated_header_file
      [(1, 0), (1, 0)] 2 = Inl (IndexError mismatch_message)"
    unfolding set_particle_list_def window bind_e_Inr read
    by (simp add: reconcile_def no_kwargs_def mismatch_message_def)
  then show ?thesis
    unfolding load_def
    by (simp add: no_kwargs_def check_events_def check_particletype_def
        particle_type_defining_string_def index)
qed


end
